theory Spec2Isabelle
  imports Complex_Main
begin

section \<open>Errors and non-finite values\<close>

text \<open>
  Python exceptions are values. The constructor is the exception class, its argument
  says which \<^verbatim>\<open>raise\<close> (or which library call) produced it.
\<close>

datatype message =
    CodeNotColorConversionCode
  | DtypeNotUInt
  | DimensionNot2
  | ZeroSizeReduction
  | UnpackMismatch
  | ShapeMismatch

datatype error =
    TypeError message
  | ValueError message
  | AttributeError string
  | IndexError
  | CvError

text \<open>
  Floating-point samples are idealised as exact reals: rounding and overflow are not
  modelled, except in the remainder \<^verbatim>\<open>np.mod\<close> of the AoLP kernel, where the rounding
  of the last addition decides whether the result stays below the divisor. The one
  operation of the kernels that leaves the finite numbers on finite operands is division
  by zero, whose IEEE result is an infinity or NaN; the type of quotients below keeps
  those values (the sign of a zero divisor is not modelled).
\<close>

datatype fval = Finite real | PosInf | NegInf | NaN

fun is_finite :: "fval \<Rightarrow> bool" where
  "is_finite (Finite x) = True"
| "is_finite PosInf = False"
| "is_finite NegInf = False"
| "is_finite NaN = False"

definition true_divide :: "real \<Rightarrow> real \<Rightarrow> fval" where
  "true_divide a b =
     (if b \<noteq> 0 then Finite (a / b)
      else if 0 < a then PosInf
      else if a < 0 then NegInf
      else NaN)"

section \<open>Derived-quantity kernels (stokes.py)\<close>

text \<open>
  A Stokes-vector image is an array whose last axis holds the Stokes components. The
  kernels are elementwise, so the leading axes are flattened: an image is the list of its
  pixels and a pixel is the list of its components. \<^verbatim>\<open>img[..., k]\<close> is
  \<open>last_axis k img\<close>; numpy raises IndexError when the last axis is too short.
\<close>

type_synonym stokes_image = "real list list"

definition last_axis :: "nat \<Rightarrow> stokes_image \<Rightarrow> error + real list" where
  "last_axis k img =
     (if list_all (\<lambda>p. k < length p) img then Inr (map (\<lambda>p. p ! k) img)
      else Inl IndexError)"

definition np_add :: "real list \<Rightarrow> real list \<Rightarrow> real list" where
  "np_add xs ys = map2 (+) xs ys"

definition np_subtract :: "real list \<Rightarrow> real list \<Rightarrow> real list" where
  "np_subtract xs ys = map2 (-) xs ys"

definition np_square :: "real list \<Rightarrow> real list" where
  "np_square xs = map (\<lambda>x. x ^ 2) xs"

definition np_sqrt :: "real list \<Rightarrow> real list" where
  "np_sqrt xs = map sqrt xs"

definition np_scale :: "real \<Rightarrow> real list \<Rightarrow> real list" where
  "np_scale c xs = map (\<lambda>x. x * c) xs"

definition np_divide :: "real list \<Rightarrow> real list \<Rightarrow> fval list" where
  "np_divide xs ys = map2 true_divide xs ys"

text \<open>\<^verbatim>\<open>np.arctan2(y, x)\<close>: the angle of the point \<open>(x, y)\<close> in \<open>(-\<pi>, \<pi>]\<close>.\<close>

definition arctan2 :: "real \<Rightarrow> real \<Rightarrow> real" where
  "arctan2 y x =
     (if 0 < x then arctan (y / x)
      else if x < 0 then (if 0 \<le> y then arctan (y / x) + pi else arctan (y / x) - pi)
      else if 0 < y then pi / 2
      else if y < 0 then - (pi / 2)
      else 0)"

text \<open>
  \<^verbatim>\<open>np.mod(a, b)\<close> on doubles, for \<open>b \<noteq> 0\<close>: the C remainder \<open>fmod\<close>, which has the
  sign of \<open>a\<close> and is exact, and then the divisor is added when the remainder is not zero
  and its sign differs from the divisor's. That addition is a floating-point addition:
  \<open>fl\<close> rounds its exact result to the nearest double (53 significant bits, ties to
  even; the exponent range is not bounded here). \<open>np_pi\<close> is the double \<^verbatim>\<open>np.pi\<close>.
\<close>

definition round_even :: "real \<Rightarrow> int" where
  "round_even q =
     (let f = \<lfloor>q\<rfloor>; t = q - of_int f in
      if t < 1 / 2 then f else if 1 / 2 < t then f + 1 else if even f then f else f + 1)"

definition fl :: "real \<Rightarrow> real" where
  "fl x =
     (if x = 0 then 0
      else let d = 2 powr (of_int \<lfloor>log 2 \<bar>x\<bar>\<rfloor> - 52) in d * of_int (round_even (x / d)))"

definition fmod :: "real \<Rightarrow> real \<Rightarrow> real" where
  "fmod a b = a - b * of_int (if 0 \<le> a / b then \<lfloor>a / b\<rfloor> else \<lceil>a / b\<rceil>)"

definition np_mod :: "real \<Rightarrow> real \<Rightarrow> real" where
  "np_mod a b =
     (let r = fmod a b in
      if r \<noteq> 0 \<and> ((b < 0) \<noteq> (r < 0)) then fl (r + b) else r)"

definition np_pi :: real where
  "np_pi = 884279719003555 / 281474976710656"

definition cvtStokesToImax :: "stokes_image \<Rightarrow> error + real list" where
  "cvtStokesToImax img_stokes =
     (case last_axis 0 img_stokes of Inl e \<Rightarrow> Inl e | Inr S0 \<Rightarrow>
      case last_axis 1 img_stokes of Inl e \<Rightarrow> Inl e | Inr S1 \<Rightarrow>
      case last_axis 2 img_stokes of Inl e \<Rightarrow> Inl e | Inr S2 \<Rightarrow>
        Inr (np_scale 0.5 (np_add S0 (np_sqrt (np_add (np_square S1) (np_square S2))))))"

definition cvtStokesToImin :: "stokes_image \<Rightarrow> error + real list" where
  "cvtStokesToImin img_stokes =
     (case last_axis 0 img_stokes of Inl e \<Rightarrow> Inl e | Inr S0 \<Rightarrow>
      case last_axis 1 img_stokes of Inl e \<Rightarrow> Inl e | Inr S1 \<Rightarrow>
      case last_axis 2 img_stokes of Inl e \<Rightarrow> Inl e | Inr S2 \<Rightarrow>
        Inr (np_scale 0.5 (np_subtract S0 (np_sqrt (np_add (np_square S1) (np_square S2))))))"

definition cvtStokesToDoLP :: "stokes_image \<Rightarrow> error + fval list" where
  "cvtStokesToDoLP img_stokes =
     (case last_axis 0 img_stokes of Inl e \<Rightarrow> Inl e | Inr S0 \<Rightarrow>
      case last_axis 1 img_stokes of Inl e \<Rightarrow> Inl e | Inr S1 \<Rightarrow>
      case last_axis 2 img_stokes of Inl e \<Rightarrow> Inl e | Inr S2 \<Rightarrow>
        Inr (np_divide (np_sqrt (np_add (np_square S1) (np_square S2))) S0))"

definition cvtStokesToAoLP :: "stokes_image \<Rightarrow> error + real list" where
  "cvtStokesToAoLP img_stokes =
     (case last_axis 1 img_stokes of Inl e \<Rightarrow> Inl e | Inr S1 \<Rightarrow>
      case last_axis 2 img_stokes of Inl e \<Rightarrow> Inl e | Inr S2 \<Rightarrow>
        Inr (map (\<lambda>a. np_mod a np_pi) (map (\<lambda>a. 0.5 * a) (map2 arctan2 S2 S1))))"

definition cvtStokesToIntensity :: "stokes_image \<Rightarrow> error + real list" where
  "cvtStokesToIntensity img_stokes =
     (case last_axis 0 img_stokes of Inl e \<Rightarrow> Inl e | Inr S0 \<Rightarrow>
        Inr (np_scale 0.5 S0))"

definition cvtStokesToDiffuse :: "stokes_image \<Rightarrow> error + real list" where
  "cvtStokesToDiffuse img_stokes =
     (case cvtStokesToImin img_stokes of Inl e \<Rightarrow> Inl e | Inr Imin \<Rightarrow>
        Inr (map (\<lambda>x. 1.0 * x) Imin))"

definition cvtStokesToSpecular :: "stokes_image \<Rightarrow> error + real list" where
  "cvtStokesToSpecular img_stokes =
     (case last_axis 1 img_stokes of Inl e \<Rightarrow> Inl e | Inr S1 \<Rightarrow>
      case last_axis 2 img_stokes of Inl e \<Rightarrow> Inl e | Inr S2 \<Rightarrow>
        Inr (np_sqrt (np_add (np_square S1) (np_square S2))))"

text \<open>An image whose last axis has at least the three linear Stokes components.\<close>

definition stokes3 :: "stokes_image \<Rightarrow> bool" where
  "stokes3 img = list_all (\<lambda>p. 3 \<le> length p) img"

text \<open>The term \<open>\<surd>(S1\<^sup>2 + S2\<^sup>2)\<close> that the kernels share, for one pixel.\<close>

definition polarized :: "real list \<Rightarrow> real" where
  "polarized p = sqrt ((p ! 1) ^ 2 + (p ! 2) ^ 2)"

section \<open>Arrays and the debayer primitive (demosaicing.py)\<close>

datatype dtype = UInt8 | UInt16 | Int32 | Float32 | Float64

text \<open>\<^verbatim>\<open>np.issubdtype(dtype, np.floating)\<close>\<close>

fun is_floating :: "dtype \<Rightarrow> bool" where
  "is_floating Float32 = True"
| "is_floating Float64 = True"
| "is_floating UInt8 = False"
| "is_floating UInt16 = False"
| "is_floating Int32 = False"

text \<open>
  An array is its dtype, its shape and its samples in row-major order (a sample of an
  integer dtype is an integral real). A well-formed array has as many samples as its
  shape says.
\<close>

record ndarray =
  dtype :: dtype
  shape :: "nat list"
  data :: "real list"

definition wf_array :: "ndarray \<Rightarrow> bool" where
  "wf_array a = (length (data a) = prod_list (shape a))"

text \<open>The values a sample of the dtype can take (integrality aside).\<close>

fun in_range :: "dtype \<Rightarrow> real \<Rightarrow> bool" where
  "in_range UInt8 v = (0 \<le> v \<and> v \<le> 255)"
| "in_range UInt16 v = (0 \<le> v \<and> v \<le> 65535)"
| "in_range Int32 v = (- 2147483648 \<le> v \<and> v \<le> 2147483647)"
| "in_range Float32 v = True"
| "in_range Float64 v = True"

definition valid_array :: "ndarray \<Rightarrow> bool" where
  "valid_array a = (wf_array a \<and> list_all (in_range (dtype a)) (data a))"

text \<open>A single-channel image and a three-channel image of a given dtype and size.\<close>

definition is_plane :: "dtype \<Rightarrow> nat \<Rightarrow> nat \<Rightarrow> ndarray \<Rightarrow> bool" where
  "is_plane dt h w a = (valid_array a \<and> dtype a = dt \<and> shape a = [h, w])"

definition is_bgr :: "dtype \<Rightarrow> nat \<Rightarrow> nat \<Rightarrow> ndarray \<Rightarrow> bool" where
  "is_bgr dt h w a = (valid_array a \<and> dtype a = dt \<and> shape a = [h, w, 3])"

record ColorConversionCode =
  is_color :: bool
  suffix :: string

definition COLOR_PolarRGB :: ColorConversionCode where
  "COLOR_PolarRGB = \<lparr>is_color = True, suffix = []\<rparr>"

definition COLOR_PolarMono :: ColorConversionCode where
  "COLOR_PolarMono = \<lparr>is_color = False, suffix = []\<rparr>"

definition COLOR_PolarRGB_VNG :: ColorConversionCode where
  "COLOR_PolarRGB_VNG = \<lparr>is_color = True, suffix = ''_VNG''\<rparr>"

definition COLOR_PolarMono_VNG :: ColorConversionCode where
  "COLOR_PolarMono_VNG = \<lparr>is_color = False, suffix = ''_VNG''\<rparr>"

definition COLOR_PolarRGB_EA :: ColorConversionCode where
  "COLOR_PolarRGB_EA = \<lparr>is_color = True, suffix = ''_EA''\<rparr>"

definition COLOR_PolarMono_EA :: ColorConversionCode where
  "COLOR_PolarMono_EA = \<lparr>is_color = False, suffix = ''_EA''\<rparr>"

text \<open>The \<^verbatim>\<open>code\<close> argument is any Python object; \<^verbatim>\<open>isinstance\<close> tells them apart.\<close>

datatype pyobject = Code ColorConversionCode | PyNone | PyInt int | PyStr string

text \<open>
  OpenCV is not part of the repository. The module is a parameter \<open>cv2\<close>: the
  attribute \<^verbatim>\<open>getattr(cv2, name)\<close> is \<open>cv2 name\<close>, \<open>None\<close> when the module has
  no such attribute, and otherwise the conversion that \<^verbatim>\<open>cv2.cvtColor\<close> performs with
  that code. What the theorems need of a Bayer conversion is stated where it is used.
\<close>

type_synonym cv2_module = "string \<Rightarrow> (ndarray \<Rightarrow> ndarray) option"

text \<open>
  The contract of a Bayer conversion (the debayer primitive of the specification, the
  documented behaviour of \<^verbatim>\<open>cv2.cvtColor\<close>): for a single-channel image it returns a
  three-channel image of the same spatial size and the same dtype.
\<close>

definition debayer :: "(ndarray \<Rightarrow> ndarray) \<Rightarrow> bool" where
  "debayer f = (\<forall>dt h w a. is_plane dt h w a \<longrightarrow> is_bgr dt h w (f a))"

text \<open>
  \<^verbatim>\<open>cv2.split\<close>: the channel planes of an image, \<open>channel k\<close> being the plane
  \<^verbatim>\<open>m[..., k]\<close> of an image with three axes. A two-axis array has one channel, a
  one-axis array is a one-column image, anything else is not an image.
\<close>

definition channel :: "nat \<Rightarrow> ndarray \<Rightarrow> ndarray" where
  "channel k m =
     (let h = shape m ! 0; w = shape m ! 1; c = shape m ! 2 in
      \<lparr>dtype = dtype m, shape = [h, w],
       data = map (\<lambda>p. data m ! (p * c + k)) [0..<h * w]\<rparr>)"

definition cv2_split :: "ndarray \<Rightarrow> error + ndarray list" where
  "cv2_split m =
     (case shape m of
        [h, w, c] \<Rightarrow> Inr (map (\<lambda>k. channel k m) [0..<c])
      | [h, w] \<Rightarrow> Inr [m]
      | [n] \<Rightarrow> Inr [m\<lparr>shape := [n, 1]\<rparr>]
      | _ \<Rightarrow> Inl CvError)"

text \<open>\<^verbatim>\<open>np.empty(shape, dtype)\<close>: the contents are unspecified; zeros stand for them.\<close>

definition np_empty :: "nat list \<Rightarrow> dtype \<Rightarrow> ndarray" where
  "np_empty shp dt = \<lparr>dtype = dt, shape = shp, data = replicate (prod_list shp) 0\<rparr>"

text \<open>The indices \<^verbatim>\<open>range(j, n, 2)\<close> of a slice \<^verbatim>\<open>j::2\<close>, and their number.\<close>

definition stride_len :: "nat \<Rightarrow> nat \<Rightarrow> nat" where
  "stride_len j n = (n + 1 - j) div 2"

definition stride_idx :: "nat \<Rightarrow> nat \<Rightarrow> nat list" where
  "stride_idx j n = map (\<lambda>k. j + 2 * k) [0..<stride_len j n]"

text \<open>\<^verbatim>\<open>img[j::2, i::2]\<close> of an image with two axes.\<close>

definition strided :: "nat \<Rightarrow> nat \<Rightarrow> ndarray \<Rightarrow> ndarray" where
  "strided j i img =
     (let h = shape img ! 0; w = shape img ! 1 in
      \<lparr>dtype = dtype img,
       shape = [stride_len j h, stride_len i w],
       data = concat (map (\<lambda>r. map (\<lambda>c. data img ! (r * w + c)) (stride_idx i w))
                          (stride_idx j h))\<rparr>)"

text \<open>
  \<^verbatim>\<open>buf[j::2, i::2] = src\<close> for a buffer of shape \<open>(h, w, 3)\<close>. numpy raises ValueError
  when the source cannot be broadcast to the slice; a source of exactly the slice's shape
  is copied, and broadcasting a smaller source is not modelled (it is an error here).
\<close>

definition assign_strided :: "nat \<Rightarrow> nat \<Rightarrow> ndarray \<Rightarrow> ndarray \<Rightarrow> error + ndarray" where
  "assign_strided j i buf src =
     (let h = shape buf ! 0; w = shape buf ! 1; w' = stride_len i w in
      if shape src = [stride_len j h, w', 3] then
        Inr (buf\<lparr>data :=
               map (\<lambda>n. let r = n div (w * 3); c = (n div 3) mod w; k = n mod 3 in
                         if r mod 2 = j \<and> c mod 2 = i
                         then data src ! (((r div 2) * w' + c div 2) * 3 + k)
                         else data buf ! n)
                   [0..<h * w * 3]\<rparr>)
      else Inl (ValueError ShapeMismatch))"

text \<open>
  \<^verbatim>\<open>buf[..., i] = plane\<close> for a buffer of shape \<open>(h, w, 3)\<close>, with the same proviso;
  an index beyond the three channels raises IndexError.
\<close>

definition assign_channel :: "nat \<Rightarrow> ndarray \<Rightarrow> ndarray \<Rightarrow> error + ndarray" where
  "assign_channel i buf plane =
     (let h = shape buf ! 0; w = shape buf ! 1 in
      if 3 \<le> i then Inl IndexError
      else if shape plane = [h, w] then
        Inr (buf\<lparr>data :=
               map (\<lambda>n. if n mod 3 = i then data plane ! (n div 3) else data buf ! n)
                   [0..<h * w * 3]\<rparr>)
      else Inl (ValueError ShapeMismatch))"

section \<open>Demosaicing\<close>

definition demosaicing_mono :: "cv2_module \<Rightarrow> ndarray \<Rightarrow> string \<Rightarrow> error + ndarray list" where
  "demosaicing_mono cv2 img_mpfa sfx =
     (case cv2 (''COLOR_BayerBG2BGR'' @ sfx) of
        None \<Rightarrow> Inl (AttributeError (''COLOR_BayerBG2BGR'' @ sfx))
      | Some code_bg \<Rightarrow>
     (case cv2 (''COLOR_BayerGR2BGR'' @ sfx) of
        None \<Rightarrow> Inl (AttributeError (''COLOR_BayerGR2BGR'' @ sfx))
      | Some code_gr \<Rightarrow>
     (let img_debayer_bg = code_bg img_mpfa;
          img_debayer_gr = code_gr img_mpfa in
      case cv2_split img_debayer_bg of
        Inl e \<Rightarrow> Inl e
      | Inr [img_000, _, img_090] \<Rightarrow>
          (case cv2_split img_debayer_gr of
             Inl e \<Rightarrow> Inl e
           | Inr [img_045, _, img_135] \<Rightarrow> Inr [img_000, img_045, img_090, img_135]
           | Inr _ \<Rightarrow> Inl (ValueError UnpackMismatch))
      | Inr _ \<Rightarrow> Inl (ValueError UnpackMismatch))))"

text \<open>
  Stage 1 of the colour path: the loop over the four sub-positions, \<open>j\<close> outermost, each
  step debayering one down-sampled sub-image into the strided positions of the buffer.
\<close>

fun color_demosaic_loop ::
  "(ndarray \<Rightarrow> ndarray) \<Rightarrow> ndarray \<Rightarrow> (nat \<times> nat) list \<Rightarrow> ndarray \<Rightarrow> error + ndarray" where
  "color_demosaic_loop code img_cpfa [] img_mpfa_bgr = Inr img_mpfa_bgr"
| "color_demosaic_loop code img_cpfa ((j, i) # rest) img_mpfa_bgr =
     (let img_bayer_ij = strided j i img_cpfa;
          img_bgr_ij = code img_bayer_ij in
      case assign_strided j i img_mpfa_bgr img_bgr_ij of
        Inl e \<Rightarrow> Inl e
      | Inr buf \<Rightarrow> color_demosaic_loop code img_cpfa rest buf)"

text \<open>
  Stage 2: the loop over the enumerated channel planes. The state is the list of the four
  output buffers \<open>[img_bgr_000, img_bgr_045, img_bgr_090, img_bgr_135]\<close>.
\<close>

fun assign_channels :: "nat \<Rightarrow> ndarray list \<Rightarrow> ndarray list \<Rightarrow> error + ndarray list" where
  "assign_channels i [] [] = Inr []"
| "assign_channels i (buf # bufs) (img # imgs) =
     (case assign_channel i buf img of
        Inl e \<Rightarrow> Inl e
      | Inr buf' \<Rightarrow>
          (case assign_channels i bufs imgs of
             Inl e \<Rightarrow> Inl e
           | Inr bufs' \<Rightarrow> Inr (buf' # bufs')))"
| "assign_channels i _ _ = Inl (ValueError UnpackMismatch)"

fun polar_demosaic_loop ::
  "cv2_module \<Rightarrow> string \<Rightarrow> (nat \<times> ndarray) list \<Rightarrow> ndarray list \<Rightarrow> error + ndarray list" where
  "polar_demosaic_loop cv2 sfx [] bufs = Inr bufs"
| "polar_demosaic_loop cv2 sfx ((i, img_mpfa) # rest) bufs =
     (case demosaicing_mono cv2 img_mpfa sfx of
        Inl e \<Rightarrow> Inl e
      | Inr imgs \<Rightarrow>
          (case assign_channels i bufs imgs of
             Inl e \<Rightarrow> Inl e
           | Inr bufs' \<Rightarrow> polar_demosaic_loop cv2 sfx rest bufs'))"

definition demosaicing_color :: "cv2_module \<Rightarrow> ndarray \<Rightarrow> string \<Rightarrow> error + ndarray list" where
  "demosaicing_color cv2 img_cpfa sfx =
     (let height = shape img_cpfa ! 0; width = shape img_cpfa ! 1;
          img_mpfa_bgr = np_empty [height, width, 3] (dtype img_cpfa) in
      case cv2 (''COLOR_BayerBG2BGR'' @ sfx) of
        None \<Rightarrow> Inl (AttributeError (''COLOR_BayerBG2BGR'' @ sfx))
      | Some code \<Rightarrow>
     (case color_demosaic_loop code img_cpfa [(0, 0), (0, 1), (1, 0), (1, 1)] img_mpfa_bgr of
        Inl e \<Rightarrow> Inl e
      | Inr img_mpfa_bgr \<Rightarrow>
     (case cv2_split img_mpfa_bgr of
        Inl e \<Rightarrow> Inl e
      | Inr planes \<Rightarrow>
          polar_demosaic_loop cv2 sfx (enumerate 0 planes)
            (replicate 4 (np_empty [height, width, 3] (dtype img_mpfa_bgr))))))"

text \<open>\<^verbatim>\<open>np.max\<close> of all samples; numpy raises ValueError on an array without samples.\<close>

fun np_max :: "real list \<Rightarrow> error + real" where
  "np_max [] = Inl (ValueError ZeroSizeReduction)"
| "np_max (x # xs) = Inr (fold max xs x)"

definition np_clip :: "real \<Rightarrow> real \<Rightarrow> real \<Rightarrow> real" where
  "np_clip x lo hi = min (max x lo) hi"

text \<open>
  The floating-point path, for the maximum \<open>m\<close> of the frame. With \<open>m \<noteq> 0\<close> the scale is
  \<open>65535 / m\<close>; the cast to uint16 drops the fraction of the clipped sample. With
  \<open>m = 0\<close> the scale is an infinity: every sample is zero or negative, its product with
  the scale is NaN or \<open>-\<infinity>\<close>, the cast gives 0 (for NaN on the usual platforms), and
  dividing the demosaiced samples by the infinity gives 0.
\<close>

definition to_u16 :: "real \<Rightarrow> ndarray \<Rightarrow> ndarray" where
  "to_u16 m img_raw =
     \<lparr>dtype = UInt16, shape = shape img_raw,
      data = (if m = 0 then map (\<lambda>x. 0) (data img_raw)
              else map (\<lambda>x. of_int \<lfloor>np_clip (x * (65535 / m)) 0 65535\<rfloor>) (data img_raw))\<rparr>"

definition from_u16 :: "real \<Rightarrow> dtype \<Rightarrow> ndarray \<Rightarrow> ndarray" where
  "from_u16 m dt img =
     \<lparr>dtype = dt, shape = shape img,
      data = (if m = 0 then map (\<lambda>v. 0) (data img)
              else map (\<lambda>v. v / (65535 / m)) (data img))\<rparr>"

text \<open>
  The public entry point. In the floating-point branch the list returned by the
  recursive call is divided by the scale, which stacks the four images into one array
  along a new first axis; the result here is the list of its four slices. Stacking fails
  when the images differ in shape.
\<close>

function demosaicing :: "cv2_module \<Rightarrow> ndarray \<Rightarrow> pyobject \<Rightarrow> error + ndarray list" where
  "demosaicing cv2 img_raw code =
     (case code of
        Code c \<Rightarrow>
          if is_floating (dtype img_raw) then
            (case np_max (data img_raw) of
               Inl e \<Rightarrow> Inl e
             | Inr m \<Rightarrow>
                 (case demosaicing cv2 (to_u16 m img_raw) code of
                    Inl e \<Rightarrow> Inl e
                  | Inr img_demosaiced_u16 \<Rightarrow>
                      if list_all (\<lambda>a. shape a = shape (hd img_demosaiced_u16))
                           img_demosaiced_u16
                      then Inr (map (from_u16 m (dtype img_raw)) img_demosaiced_u16)
                      else Inl (ValueError ShapeMismatch)))
          else if dtype img_raw \<notin> {UInt8, UInt16} then Inl (TypeError DtypeNotUInt)
          else if length (shape img_raw) \<noteq> 2 then Inl (ValueError DimensionNot2)
          else if is_color c then demosaicing_color cv2 img_raw (suffix c)
          else demosaicing_mono cv2 img_raw (suffix c)
      | _ \<Rightarrow> Inl (TypeError CodeNotColorConversionCode))"
  by pat_completeness auto
termination
  by (relation "measure (\<lambda>(cv2, img_raw, code). if is_floating (dtype img_raw) then 1 else 0)")
     (auto simp: to_u16_def)

section \<open>Stokes-vector estimation (stokes.py)\<close>

text \<open>
  Vectors are lists of reals and a matrix is the list of its rows. The intensity stack
  \<^verbatim>\<open>I\<close> has the acquisitions on its last axis; its leading axes are flattened, so it
  is the list of its pixels, each the vector of that pixel's intensities.
\<close>

type_synonym vec = "real list"

type_synonym matrix = "real list list"

definition dot :: "vec \<Rightarrow> vec \<Rightarrow> real" where
  "dot xs ys = sum_list (map2 (*) xs ys)"

definition mv :: "matrix \<Rightarrow> vec \<Rightarrow> vec" where
  "mv A x = map (\<lambda>r. dot r x) A"

definition col :: "nat \<Rightarrow> matrix \<Rightarrow> vec" where
  "col j B = map (\<lambda>r. r ! j) B"

text \<open>The product of \<open>A\<close> with a matrix \<open>B\<close> of \<open>c\<close> columns, and the transpose of such a \<open>B\<close>.\<close>

definition mm :: "nat \<Rightarrow> matrix \<Rightarrow> matrix \<Rightarrow> matrix" where
  "mm c A B = map (\<lambda>r. map (\<lambda>j. dot r (col j B)) [0..<c]) A"

definition mtranspose :: "nat \<Rightarrow> matrix \<Rightarrow> matrix" where
  "mtranspose c B = map (\<lambda>j. col j B) [0..<c]"

definition vsub :: "vec \<Rightarrow> vec \<Rightarrow> vec" where
  "vsub xs ys = map2 (-) xs ys"

definition norm2 :: "vec \<Rightarrow> real" where
  "norm2 x = dot x x"

text \<open>
  \<^verbatim>\<open>np.linalg.pinv\<close> is not part of the repository; it is a parameter \<open>pinv\<close> of the
  model. \<open>moore_penrose n k A P\<close> says that \<open>P\<close> is the Moore-Penrose pseudo-inverse of
  the \<open>n\<close> by \<open>k\<close> matrix \<open>A\<close>: the shapes fit and the four Penrose equations hold.
\<close>

definition is_matrix :: "nat \<Rightarrow> nat \<Rightarrow> matrix \<Rightarrow> bool" where
  "is_matrix n k A = (length A = n \<and> list_all (\<lambda>r. length r = k) A)"

definition moore_penrose :: "nat \<Rightarrow> nat \<Rightarrow> matrix \<Rightarrow> matrix \<Rightarrow> bool" where
  "moore_penrose n k A P =
     (is_matrix n k A \<and> is_matrix k n P \<and>
      mm k A (mm k P A) = A \<and>
      mm n P (mm n A P) = P \<and>
      mtranspose n (mm n A P) = mm n A P \<and>
      mtranspose k (mm k P A) = mm k P A)"

text \<open>\<^verbatim>\<open>M[..., 0, :]\<close>: the first row of every matrix of the stack; IndexError without rows.\<close>

definition first_rows :: "matrix list \<Rightarrow> error + matrix" where
  "first_rows M =
     (if list_all (\<lambda>m. m \<noteq> []) M then Inr (map hd M) else Inl IndexError)"

text \<open>
  \<^verbatim>\<open>np.tensordot(A_pinv, I, axes=(1, -1))\<close>: the rows of \<open>A_pinv\<close> are contracted with
  the last axis of \<open>I\<close>, which must be as long (an operand without rows or pixels
  carries no length here, so nothing is checked for it); the result has the Stokes axis
  first.
  \<^verbatim>\<open>np.moveaxis(S, 0, -1)\<close> makes it the last axis of each of the \<open>npix\<close> pixels.
\<close>

definition tensordot :: "matrix \<Rightarrow> vec list \<Rightarrow> error + vec list" where
  "tensordot A_pinv I =
     (if list_all (\<lambda>r. list_all (\<lambda>p. length p = length r) I) A_pinv
      then Inr (map (\<lambda>r. map (\<lambda>p. dot r p) I) A_pinv)
      else Inl (ValueError ShapeMismatch))"

definition moveaxis :: "vec list \<Rightarrow> nat \<Rightarrow> vec list" where
  "moveaxis S npix = map (\<lambda>p. map (\<lambda>row. row ! p) S) [0..<npix]"

definition calcStokes :: "(matrix \<Rightarrow> matrix) \<Rightarrow> vec list \<Rightarrow> matrix list \<Rightarrow> error + vec list" where
  "calcStokes pinv I M =
     (case first_rows M of
        Inl e \<Rightarrow> Inl e
      | Inr A \<Rightarrow>
          (let A_pinv = pinv A in
           case tensordot A_pinv I of
             Inl e \<Rightarrow> Inl e
           | Inr S \<Rightarrow> Inr (moveaxis S (length I))))"

text \<open>Modelled from the spec: \<^verbatim>\<open>mueller.polarizer\<close> is imported by stokes.py but its module
  is not among the sources. The specification gives the first row of the linear
  polariser's matrix as \<open>[1, cos 2\<theta>, sin 2\<theta>]\<close> up to scaling; the scaling is the
  parameter \<open>g\<close>, and the other rows are those of the closed-form linear polariser
  (calcStokes reads the first row only).
\<close>

definition polarizer :: "real \<Rightarrow> real \<Rightarrow> matrix" where
  "polarizer g theta =
     (let s = sin (2 * theta); c = cos (2 * theta) in
      map (map (\<lambda>x. g * x))
        [[1, c, s, 0],
         [c, c * c, s * c, 0],
         [s, s * c, s * s, 0],
         [0, 0, 0, 0]])"

text \<open>\<^verbatim>\<open>polarizer(theta)[..., :3, :3]\<close> for the list \<open>theta\<close> of angles, then the general fit.\<close>

definition calcLinearStokes ::
  "(matrix \<Rightarrow> matrix) \<Rightarrow> real \<Rightarrow> vec list \<Rightarrow> real list \<Rightarrow> error + vec list" where
  "calcLinearStokes pinv g I theta =
     (let M = map (\<lambda>t. map (take 3) (take 3 (polarizer g t))) theta in
      calcStokes pinv I M)"

text \<open>
  The synthetic intensities of a pixel with linear Stokes components \<open>(S0, S1, S2)\<close>
  behind polarisers at the angles \<open>theta\<close>, and the four angles of the sensor.
\<close>

definition synthetic :: "real list \<Rightarrow> real \<times> real \<times> real \<Rightarrow> vec" where
  "synthetic theta S =
     (case S of (S0, S1, S2) \<Rightarrow>
        map (\<lambda>t. S0 + S1 * cos (2 * t) + S2 * sin (2 * t)) theta)"

definition four_angles :: "real list" where
  "four_angles = [0, pi / 4, pi / 2, 3 * pi / 4]"

text \<open>The matrix \<open>A\<close> that calcStokes takes from that stack: one row per angle.\<close>

definition malus_rows :: "real \<Rightarrow> real list \<Rightarrow> matrix" where
  "malus_rows g theta = map (\<lambda>t. [g, g * cos (2 * t), g * sin (2 * t)]) theta"

text \<open>
  The pseudo-inverse of the matrix of first rows at the four angles, for concrete runs:
  whatever its argument, \<open>pinv4 g\<close> returns that one matrix.
\<close>

definition pinv4 :: "real \<Rightarrow> matrix \<Rightarrow> matrix" where
  "pinv4 g A =
     map (map (\<lambda>x. x / g))
       [[1 / 4, 1 / 4, 1 / 4, 1 / 4],
        [1 / 2, 0, - 1 / 2, 0],
        [0, 1 / 2, 0, - 1 / 2]]"

section \<open>A small debayer for concrete runs\<close>

text \<open>
  A stand-in for OpenCV on which the model can be run: \<open>toy_bg\<close> copies every sample
  into the first channel, \<open>toy_gr\<close> into the last, and the module \<open>toy_cv2\<close> offers
  both under the names of the bilinear conversions only.
\<close>

definition toy_bg :: "ndarray \<Rightarrow> ndarray" where
  "toy_bg a = \<lparr>dtype = dtype a, shape = shape a @ [3],
              data = concat (map (\<lambda>v. [v, 1, 0]) (data a))\<rparr>"

definition toy_gr :: "ndarray \<Rightarrow> ndarray" where
  "toy_gr a = \<lparr>dtype = dtype a, shape = shape a @ [3],
              data = concat (map (\<lambda>v. [0, 1, v]) (data a))\<rparr>"

definition toy_cv2 :: cv2_module where
  "toy_cv2 name =
     (if name = ''COLOR_BayerBG2BGR'' then Some toy_bg
      else if name = ''COLOR_BayerGR2BGR'' then Some toy_gr
      else None)"

section \<open>Kernel facts\<close>

lemma last_axis_ok:
  "stokes3 img \<Longrightarrow> k < 3 \<Longrightarrow> last_axis k img = Inr (map (\<lambda>p. p ! k) img)"
  by (auto simp: stokes3_def last_axis_def list_all_iff)

lemma polarized_nonneg: "0 \<le> polarized p"
  by (simp add: polarized_def)

lemma Imax_eq:
  "stokes3 img \<Longrightarrow>
   cvtStokesToImax img = Inr (map (\<lambda>p. (p ! 0 + polarized p) * 0.5) img)"
  by (simp add: cvtStokesToImax_def last_axis_ok np_scale_def np_add_def np_sqrt_def
      np_square_def polarized_def map2_map_map)

lemma Imin_eq:
  "stokes3 img \<Longrightarrow>
   cvtStokesToImin img = Inr (map (\<lambda>p. (p ! 0 - polarized p) * 0.5) img)"
  by (simp add: cvtStokesToImin_def last_axis_ok np_scale_def np_add_def np_sqrt_def
      np_subtract_def np_square_def polarized_def map2_map_map)

lemma Specular_eq:
  "stokes3 img \<Longrightarrow> cvtStokesToSpecular img = Inr (map polarized img)"
  by (simp add: cvtStokesToSpecular_def last_axis_ok np_add_def np_sqrt_def
      np_square_def polarized_def map2_map_map)

lemma Intensity_eq:
  "stokes3 img \<Longrightarrow> cvtStokesToIntensity img = Inr (map (\<lambda>p. p ! 0 * 0.5) img)"
  by (simp add: cvtStokesToIntensity_def last_axis_ok np_scale_def)

lemma DoLP_eq:
  "stokes3 img \<Longrightarrow>
   cvtStokesToDoLP img = Inr (map (\<lambda>p. true_divide (polarized p) (p ! 0)) img)"
  by (simp add: cvtStokesToDoLP_def last_axis_ok np_divide_def np_add_def np_sqrt_def
      np_square_def polarized_def map2_map_map)

lemma AoLP_eq:
  "stokes3 img \<Longrightarrow>
   cvtStokesToAoLP img = Inr (map (\<lambda>p. np_mod (0.5 * arctan2 (p ! 2) (p ! 1)) np_pi) img)"
  by (simp add: cvtStokesToAoLP_def last_axis_ok map2_map_map)

lemma round_even_le: "q < of_int K \<Longrightarrow> round_even q \<le> K"
proof -
  assume "q < of_int K"
  then have "\<lfloor>q\<rfloor> < K" by (simp add: floor_less_iff)
  then show ?thesis by (simp add: round_even_def Let_def)
qed

lemma round_even_nonneg: "0 \<le> q \<Longrightarrow> 0 \<le> round_even q"
  by (simp add: round_even_def Let_def)

lemma np_pi_bounds: "2 < np_pi" "np_pi < 4" "0 < np_pi"
  by (simp_all add: np_pi_def)

lemma fl_range:
  assumes "0 < s" "s < np_pi"
  shows "0 \<le> fl s \<and> fl s \<le> np_pi"
proof -
  define e where "e = \<lfloor>log 2 \<bar>s\<bar>\<rfloor>"
  define d :: real where "d = 2 powr (of_int e - 52)"
  have dpos: "0 < d" by (simp add: d_def)
  have fl: "fl s = d * of_int (round_even (s / d))"
    using assms(1) by (simp add: fl_def e_def d_def Let_def)
  have "of_int e \<le> log 2 s" "log 2 s < of_int e + 1"
    using assms(1) by (simp_all add: e_def)
  then have lo: "2 powr of_int e \<le> s" and hi: "s < 2 powr (of_int e + 1)"
    using assms(1) by (simp_all add: le_log_iff log_less_iff)
  have "0 \<le> s / d" using assms(1) dpos by simp
  then have nonneg: "0 \<le> fl s" unfolding fl using dpos round_even_nonneg by simp
  have upper: "fl s \<le> np_pi"
  proof (cases "e \<le> 0")
    case True
    have q: "2 powr (of_int e + 1) = d * 9007199254740992"
    proof -
      have "(2::real) powr (of_int e + 1) = 2 powr ((of_int e - 52) + 53)"
        by (rule arg_cong [where f = "(powr) 2"]) simp
      also have "\<dots> = d * 2 powr 53" unfolding d_def by (rule powr_add)
      also have "(2::real) powr 53 = 9007199254740992" by simp
      finally show ?thesis .
    qed
    have "s / d < of_int 9007199254740992"
      using hi dpos unfolding q by (simp add: pos_divide_less_eq mult.commute)
    then have "round_even (s / d) \<le> 9007199254740992" by (rule round_even_le)
    then have "real_of_int (round_even (s / d)) \<le> 9007199254740992" by linarith
    then have "fl s \<le> d * 9007199254740992" unfolding fl using dpos by simp
    also have "\<dots> = 2 powr (of_int e + 1)" by (simp only: q)
    also have "\<dots> \<le> 2 powr 1" using True by (intro powr_mono) simp_all
    finally show ?thesis using np_pi_bounds by simp
  next
    case False
    have lt: "2 powr of_int e < (2::real) powr 2" using lo assms(2) np_pi_bounds by simp
    have "of_int e < (2::real)" by (rule powr_less_cancel [OF lt]) simp
    with False have e1: "e = 1" by simp
    have "d = 2 powr (- 51)" unfolding d_def e1 by simp
    also have "\<dots> = 1 / 2 powr 51" by (rule powr_minus_divide)
    also have "(2::real) powr 51 = 2 ^ 51" by simp
    finally have d: "d = 1 / 2 ^ 51" .
    have "s / d < of_int 7074237752028440"
      using assms(2) by (simp add: d np_pi_def)
    then have "round_even (s / d) \<le> 7074237752028440" by (rule round_even_le)
    then have "real_of_int (round_even (s / d)) \<le> 7074237752028440" by linarith
    then have "fl s \<le> d * 7074237752028440" unfolding fl using dpos by simp
    also have "\<dots> = np_pi" by (simp add: d np_pi_def)
    finally show ?thesis .
  qed
  from nonneg upper show ?thesis ..
qed


lemma fmod_range:
  assumes "0 < b"
  shows "(0 \<le> a \<longrightarrow> 0 \<le> fmod a b \<and> fmod a b < b) \<and>
         (a < 0 \<longrightarrow> - b < fmod a b \<and> fmod a b \<le> 0)"
proof (intro conjI impI)
  assume a: "0 \<le> a"
  then have q: "0 \<le> a / b" using assms by simp
  have e: "fmod a b = b * (a / b - of_int \<lfloor>a / b\<rfloor>)"
    using q assms by (simp add: fmod_def algebra_simps)
  have "0 \<le> a / b - of_int \<lfloor>a / b\<rfloor>" "a / b - of_int \<lfloor>a / b\<rfloor> < 1"
    by linarith+
  then show "0 \<le> fmod a b" "fmod a b < b"
    unfolding e using assms by (simp_all add: mult_less_cancel_left2)
next
  assume a: "a < 0"
  then have q: "\<not> 0 \<le> a / b" using assms by (simp add: not_le divide_neg_pos)
  have e: "fmod a b = b * (a / b - of_int \<lceil>a / b\<rceil>)"
    using q assms by (simp add: fmod_def algebra_simps)
  have "- 1 < a / b - of_int \<lceil>a / b\<rceil>" "a / b - of_int \<lceil>a / b\<rceil> \<le> 0"
    by linarith+
  then have "b * (- 1) < b * (a / b - of_int \<lceil>a / b\<rceil>)"
    "b * (a / b - of_int \<lceil>a / b\<rceil>) \<le> b * 0"
    using assms by (simp_all only: mult_less_cancel_left_pos mult_le_cancel_left_pos)
  then show "- b < fmod a b" "fmod a b \<le> 0"
    unfolding e by simp_all
qed

lemma np_mod_range: "0 \<le> np_mod a np_pi \<and> np_mod a np_pi \<le> np_pi"
proof (cases "0 \<le> a")
  case True
  with fmod_range [OF np_pi_bounds(3), of a]
  have "0 \<le> fmod a np_pi" "fmod a np_pi < np_pi" by simp_all
  then show ?thesis using np_pi_bounds(3) by (simp add: np_mod_def Let_def)
next
  case False
  with fmod_range [OF np_pi_bounds(3), of a]
  have r: "- np_pi < fmod a np_pi" "fmod a np_pi \<le> 0" by simp_all
  show ?thesis
  proof (cases "fmod a np_pi = 0")
    case True
    then show ?thesis using np_pi_bounds(3) by (simp add: np_mod_def Let_def)
  next
    case False
    with r have "0 < fmod a np_pi + np_pi" "fmod a np_pi + np_pi < np_pi" by simp_all
    from fl_range [OF this] False r np_pi_bounds(3) show ?thesis
      by (simp add: np_mod_def Let_def)
  qed
qed

lemma fl_below_pi:
  assumes "- (1 / 10 ^ 17) < a" "a < 0"
  shows "fl (a + np_pi) = np_pi"
proof -
  let ?s = "a + np_pi"
  have s: "2 < ?s" "?s < 4" using assms np_pi_bounds by (simp_all add: np_pi_def)
  have e1: "\<lfloor>log 2 \<bar>?s\<bar>\<rfloor> = 1"
  proof (rule floor_unique)
    have "(2::real) powr 1 \<le> ?s" using s by simp
    then show "of_int 1 \<le> log 2 \<bar>?s\<bar>" using s by (simp add: le_log_iff)
    have "?s < 2 powr 2" using s by simp
    then have "log 2 ?s < 2" using s by (subst log_less_iff) simp_all
    then show "log 2 \<bar>?s\<bar> < of_int 1 + 1" using s by simp
  qed
  have dd: "(2::real) powr (1 - 52) = 1 / 2 ^ 51"
  proof -
    have "(2::real) powr (1 - 52) = 2 powr (- 51)" by simp
    also have "\<dots> = 1 / 2 powr 51" by (rule powr_minus_divide)
    also have "(2::real) powr 51 = 2 ^ 51" by simp
    finally show ?thesis .
  qed
  have ne: "?s \<noteq> 0" using s by simp
  have "fl ?s = 2 powr (of_int \<lfloor>log 2 \<bar>?s\<bar>\<rfloor> - 52) *
                  of_int (round_even (?s / 2 powr (of_int \<lfloor>log 2 \<bar>?s\<bar>\<rfloor> - 52)))"
    using ne by (simp only: fl_def Let_def if_False)
  also have "\<dots> = (1 / 2 ^ 51) * of_int (round_even (?s / (1 / 2 ^ 51)))"
    by (simp only: e1 of_int_1 dd)
  finally have fl: "fl ?s = (1 / 2 ^ 51) * of_int (round_even (?s / (1 / 2 ^ 51)))" .
  let ?q = "?s / (1 / 2 ^ 51)"
  have q: "7074237752028440 - 1 / 2 < ?q" "?q < 7074237752028440"
    using assms by (simp_all add: np_pi_def)
  then have f: "\<lfloor>?q\<rfloor> = 7074237752028439" by (intro floor_unique) simp_all
  have "round_even ?q = 7074237752028440"
    unfolding round_even_def Let_def f using q by simp
  then show ?thesis unfolding fl by (simp add: np_pi_def)
qed

lemma np_mod_tiny:
  assumes "- (1 / 10 ^ 17) < a" "a < 0"
  shows "np_mod a np_pi = np_pi"
proof -
  have "- 1 < a / np_pi" "a / np_pi < 0"
    using assms np_pi_bounds by (simp_all add: np_pi_def field_simps)
  then have c: "\<lceil>a / np_pi\<rceil> = 0" "\<not> 0 \<le> a / np_pi" by (simp_all add: ceiling_eq_iff)
  then have "fmod a np_pi = a" by (simp add: fmod_def)
  with assms np_pi_bounds(3) fl_below_pi [OF assms] show ?thesis
    by (simp add: np_mod_def Let_def)
qed

lemma tan_ge_half:
  assumes "0 < (d::real)" "d < 1"
  shows "d / 2 \<le> tan d"
proof -
  have d2: "d < pi / 2" using assms pi_ge_two by simp
  have "\<bar>sin d - (\<Sum>m<2. sin_coeff m * d ^ m)\<bar> \<le> inverse (fact 2) * \<bar>d\<bar> ^ 2"
    by (rule Maclaurin_sin_bound)
  moreover have "(\<Sum>m<2. sin_coeff m * d ^ m) = d"
    by (simp add: sin_coeff_def numeral_2_eq_2)
  ultimately have "\<bar>sin d - d\<bar> \<le> inverse (fact 2) * \<bar>d\<bar> ^ 2" by (simp only:)
  then have "\<bar>sin d - d\<bar> \<le> d ^ 2 / 2" by (simp add: fact_2)
  then have "d - d ^ 2 / 2 \<le> sin d" by linarith
  moreover have "d ^ 2 \<le> d" using assms by (simp add: power2_eq_square mult_left_le)
  ultimately have sd: "d / 2 \<le> sin d" by linarith
  have c: "0 < cos d" "cos d \<le> 1" using assms d2 by (simp_all add: cos_gt_zero_pi)
  from sd assms have "0 \<le> sin d" by linarith
  with c have "sin d * cos d \<le> sin d" by (simp add: mult_left_le)
  with c have "sin d \<le> sin d / cos d" by (simp add: pos_le_divide_eq)
  with sd show ?thesis unfolding tan_def by linarith
qed

lemma arctan_small: "0 < arctan (1 / 10 ^ 20) \<and> arctan (1 / 10 ^ 20) < 1 / 10 ^ 19"
proof -
  let ?d = "1 / 10 ^ 19 :: real"
  have d: "0 < ?d" "?d < pi / 2" using pi_ge_two by simp_all
  have "?d / 2 \<le> tan ?d" by (rule tan_ge_half) simp_all
  then have "1 / 10 ^ 20 < tan ?d" by simp
  then have "arctan (1 / 10 ^ 20) < arctan (tan ?d)" by (rule arctan_monotone)
  also have "\<dots> = ?d" using d by (intro arctan_tan) simp_all
  finally show ?thesis by simp
qed

section \<open>Demosaicing facts\<close>

lemma stride_idx_bound: "j < 2 \<Longrightarrow> r \<in> set (stride_idx j h) \<Longrightarrow> r < h"
  by (auto simp: stride_idx_def stride_len_def)

lemma row_col_bound: "r < h \<Longrightarrow> c < w \<Longrightarrow> r * w + c < h * (w::nat)"
proof -
  assume a: "r < h" "c < w"
  then have "r * w + c < r * w + w" by simp
  also have "\<dots> = (r + 1) * w" by simp
  also from a have "\<dots> \<le> h * w" by (intro mult_le_mono1) simp
  finally show ?thesis .
qed

lemma strided_is_plane:
  assumes "is_plane dt h w img" "j < 2" "i < 2"
  shows "is_plane dt (stride_len j h) (stride_len i w) (strided j i img)"
proof -
  from assms have sh: "shape img = [h, w]" and len: "length (data img) = h * w"
    and rng: "list_all (in_range dt) (data img)" and dt: "dtype img = dt"
    by (auto simp: is_plane_def valid_array_def wf_array_def)
  have l: "length (data (strided j i img)) = stride_len j h * stride_len i w"
    by (simp add: strided_def sh Let_def length_concat o_def stride_idx_def sum_list_triv)
  have "list_all (in_range dt) (data (strided j i img))"
    using assms(2,3) rng len
    by (auto simp: strided_def sh Let_def list_all_iff row_col_bound
        dest!: stride_idx_bound)
  with l dt show ?thesis
    by (simp add: is_plane_def valid_array_def wf_array_def strided_def sh Let_def)
qed

lemma np_empty_is_bgr: "is_bgr dt h w (np_empty [h, w, 3] dt)"
  by (cases dt) (simp_all add: is_bgr_def valid_array_def wf_array_def np_empty_def list_all_iff)

lemma half_bound: "r < h \<Longrightarrow> r mod 2 = j \<Longrightarrow> r div 2 < stride_len j h"
  unfolding stride_len_def by presburger

lemma pixel_index:
  assumes "n < h * w * 3"
  shows "n div (w * 3) < h \<and> (n div 3) mod w < (w::nat)"
proof -
  from assms have "0 < w" by (cases w) simp_all
  moreover from assms have "n < h * (w * 3)" by (simp add: mult.assoc)
  then have "n div (w * 3) < h" by (rule less_mult_imp_div_less)
  ultimately show ?thesis by simp
qed

lemma assign_strided_is_bgr:
  assumes "is_bgr dt h w buf" "is_bgr dt (stride_len j h) (stride_len i w) src"
  shows "\<exists>buf'. assign_strided j i buf src = Inr buf' \<and> is_bgr dt h w buf'"
proof -
  from assms(1) have sb: "shape buf = [h, w, 3]" and lb: "length (data buf) = h * w * 3"
    and rb: "list_all (in_range dt) (data buf)" and db: "dtype buf = dt"
    by (auto simp: is_bgr_def valid_array_def wf_array_def)
  from assms(2) have ss: "shape src = [stride_len j h, stride_len i w, 3]"
    and ls: "length (data src) = stride_len j h * stride_len i w * 3"
    and rs: "list_all (in_range dt) (data src)"
    by (auto simp: is_bgr_def valid_array_def wf_array_def)
  have idx: "((n div (w * 3) div 2) * stride_len i w + (n div 3) mod w div 2) * 3 + n mod 3
               < length (data src)"
    if "n < h * w * 3" "n div (w * 3) mod 2 = j" "(n div 3) mod w mod 2 = i" for n
  proof -
    from that pixel_index [of n h w]
    have "n div (w * 3) div 2 < stride_len j h" "(n div 3) mod w div 2 < stride_len i w"
      by (auto intro: half_bound)
    then have "(n div (w * 3) div 2) * stride_len i w + (n div 3) mod w div 2
                 < stride_len j h * stride_len i w"
      by (rule row_col_bound)
    then show ?thesis unfolding ls by simp
  qed
  show ?thesis
    using rb rs idx lb
    by (auto simp: assign_strided_def sb ss Let_def is_bgr_def valid_array_def wf_array_def db
        list_all_iff)
qed


lemma debayerD: "debayer f \<Longrightarrow> is_plane dt h w a \<Longrightarrow> is_bgr dt h w (f a)"
  by (auto simp: debayer_def)

lemma color_demosaic_loop_is_bgr:
  assumes "debayer code" "is_plane dt h w img"
  shows "is_bgr dt h w buf \<Longrightarrow> \<forall>(j, i) \<in> set ps. j < 2 \<and> i < 2 \<Longrightarrow>
         \<exists>buf'. color_demosaic_loop code img ps buf = Inr buf' \<and> is_bgr dt h w buf'"
proof (induction ps arbitrary: buf)
  case Nil
  then show ?case by simp
next
  case (Cons p ps)
  obtain j i where p: "p = (j, i)" by (cases p)
  with Cons.prems have ji: "j < 2" "i < 2" by auto
  from assms ji have "is_bgr dt (stride_len j h) (stride_len i w) (code (strided j i img))"
    by (intro debayerD strided_is_plane)
  with Cons.prems(1) obtain buf' where
    b: "assign_strided j i buf (code (strided j i img)) = Inr buf'" "is_bgr dt h w buf'"
    using assign_strided_is_bgr by blast
  from Cons.IH [OF b(2)] Cons.prems(2) b(1) p show ?case by simp
qed

lemma channel_is_plane:
  assumes "is_bgr dt h w m" "k < 3"
  shows "is_plane dt h w (channel k m)"
proof -
  from assms(1) have sm: "shape m = [h, w, 3]" and lm: "length (data m) = h * w * 3"
    and rm: "list_all (in_range dt) (data m)" and dm: "dtype m = dt"
    by (auto simp: is_bgr_def valid_array_def wf_array_def)
  from assms(2) lm have "p * 3 + k < length (data m)" if "p < h * w" for p
    using that by simp
  with rm show ?thesis
    by (auto simp: channel_def sm dm Let_def is_plane_def valid_array_def wf_array_def
        list_all_iff)
qed

lemma assign_channel_is_bgr:
  assumes "is_bgr dt h w buf" "is_plane dt h w plane" "i < 3"
  shows "\<exists>buf'. assign_channel i buf plane = Inr buf' \<and> is_bgr dt h w buf'"
proof -
  from assms(1) have sb: "shape buf = [h, w, 3]" and lb: "length (data buf) = h * w * 3"
    and rb: "list_all (in_range dt) (data buf)" and db: "dtype buf = dt"
    by (auto simp: is_bgr_def valid_array_def wf_array_def)
  from assms(2) have sp: "shape plane = [h, w]" and lp: "length (data plane) = h * w"
    and rp: "list_all (in_range dt) (data plane)"
    by (auto simp: is_plane_def valid_array_def wf_array_def)
  have "n div 3 < length (data plane)" if "n < h * w * 3" for n
    using that lp by simp
  with rb rp lb assms(3) show ?thesis
    by (auto simp: assign_channel_def sb sp Let_def is_bgr_def valid_array_def wf_array_def
        db list_all_iff)
qed

lemma cv2_split_3:
  "shape m = [h, w, 3] \<Longrightarrow> cv2_split m = Inr [channel 0 m, channel 1 m, channel 2 m]"
  by (simp add: cv2_split_def upt_rec numeral_3_eq_3 numeral_2_eq_2)

lemma demosaicing_mono_eq:
  assumes "cv2 (''COLOR_BayerBG2BGR'' @ sfx) = Some bg"
    and "cv2 (''COLOR_BayerGR2BGR'' @ sfx) = Some gr"
    and "shape (bg img) = [h, w, 3]" and "shape (gr img) = [h, w, 3]"
  shows "demosaicing_mono cv2 img sfx =
           Inr [channel 0 (bg img), channel 0 (gr img), channel 2 (bg img), channel 2 (gr img)]"
  using assms by (simp add: demosaicing_mono_def cv2_split_3 del: append.simps)

lemma demosaicing_mono_planes:
  assumes "cv2 (''COLOR_BayerBG2BGR'' @ sfx) = Some bg" "debayer bg"
    and "cv2 (''COLOR_BayerGR2BGR'' @ sfx) = Some gr" "debayer gr"
    and "is_plane dt h w img"
  shows "\<exists>imgs. demosaicing_mono cv2 img sfx = Inr imgs \<and> length imgs = 4 \<and>
           list_all (is_plane dt h w) imgs"
proof -
  from assms have b: "is_bgr dt h w (bg img)" and g: "is_bgr dt h w (gr img)"
    by (auto intro: debayerD)
  then have "shape (bg img) = [h, w, 3]" "shape (gr img) = [h, w, 3]"
    by (auto simp: is_bgr_def)
  from demosaicing_mono_eq [OF assms(1,3) this] b g show ?thesis
    by (simp add: channel_is_plane)
qed

lemma assign_channels_is_bgr:
  "list_all (is_bgr dt h w) bufs \<Longrightarrow> list_all (is_plane dt h w) imgs \<Longrightarrow>
   length bufs = length imgs \<Longrightarrow> i < 3 \<Longrightarrow>
   \<exists>bufs'. assign_channels i bufs imgs = Inr bufs' \<and> length bufs' = length bufs \<and>
     list_all (is_bgr dt h w) bufs'"
proof (induction i bufs imgs rule: assign_channels.induct)
  case (2 i buf bufs img imgs)
  then obtain buf' where b: "assign_channel i buf img = Inr buf'" "is_bgr dt h w buf'"
    using assign_channel_is_bgr [of dt h w buf img i] by auto
  from 2 b(1) obtain bufs' where "assign_channels i bufs imgs = Inr bufs'"
    "length bufs' = length bufs" "list_all (is_bgr dt h w) bufs'"
    by auto
  with b show ?case by simp
qed simp_all

lemma polar_demosaic_loop_is_bgr:
  assumes "cv2 (''COLOR_BayerBG2BGR'' @ sfx) = Some bg" "debayer bg"
    and "cv2 (''COLOR_BayerGR2BGR'' @ sfx) = Some gr" "debayer gr"
  shows "list_all (is_bgr dt h w) bufs \<Longrightarrow> length bufs = 4 \<Longrightarrow>
         list_all (\<lambda>(i, p). i < 3 \<and> is_plane dt h w p) planes \<Longrightarrow>
         \<exists>bufs'. polar_demosaic_loop cv2 sfx planes bufs = Inr bufs' \<and> length bufs' = 4 \<and>
           list_all (is_bgr dt h w) bufs'"
proof (induction planes arbitrary: bufs)
  case Nil
  then show ?case by simp
next
  case (Cons p planes)
  obtain i img where p: "p = (i, img)" by (cases p)
  with Cons.prems have i3: "i < 3" by simp
  from p Cons.prems have "is_plane dt h w img" by simp
  from demosaicing_mono_planes [OF assms this] obtain imgs where
    m: "demosaicing_mono cv2 img sfx = Inr imgs" "length imgs = 4"
       "list_all (is_plane dt h w) imgs"
    by blast
  with Cons.prems i3 obtain bufs' where
    a: "assign_channels i bufs imgs = Inr bufs'" "length bufs' = length bufs"
       "list_all (is_bgr dt h w) bufs'"
    using assign_channels_is_bgr [of dt h w bufs imgs i] by auto
  from Cons.prems a have "length bufs' = 4" by simp
  from Cons.IH [OF a(3) this] Cons.prems(3) m(1) a(1) p show ?case by simp
qed

lemma demosaicing_color_images:
  assumes "cv2 (''COLOR_BayerBG2BGR'' @ sfx) = Some bg" "debayer bg"
    and "cv2 (''COLOR_BayerGR2BGR'' @ sfx) = Some gr" "debayer gr"
    and "is_plane dt h w img"
  shows "\<exists>imgs. demosaicing_color cv2 img sfx = Inr imgs \<and> length imgs = 4 \<and>
           list_all (is_bgr dt h w) imgs"
proof -
  from assms(5) have sh: "shape img = [h, w]" and dt: "dtype img = dt"
    by (auto simp: is_plane_def)
  have "\<forall>(j, i) \<in> set [(0, 0), (0, 1), (1, 0), (1, 1::nat)]. j < (2::nat) \<and> i < 2" by simp
  with color_demosaic_loop_is_bgr [OF assms(2,5) np_empty_is_bgr]
  obtain buf where
    l: "color_demosaic_loop bg img [(0, 0), (0, 1), (1, 0), (1, 1)] (np_empty [h, w, 3] dt)
          = Inr buf" "is_bgr dt h w buf"
    by blast
  then have sb: "shape buf = [h, w, 3]" and db: "dtype buf = dt" by (auto simp: is_bgr_def)
  have planes: "list_all (\<lambda>(i, p). i < 3 \<and> is_plane dt h w p)
                  (enumerate 0 [channel 0 buf, channel 1 buf, channel 2 buf])"
    using l(2) by (simp add: channel_is_plane)
  have bufs: "list_all (is_bgr dt h w) (replicate 4 (np_empty [h, w, 3] dt))"
    "length (replicate 4 (np_empty [h, w, 3] dt)) = 4"
    by (simp_all add: list_all_iff np_empty_is_bgr)
  from polar_demosaic_loop_is_bgr [OF assms(1-4) bufs planes] l(1) show ?thesis
    by (simp add: demosaicing_color_def sh dt Let_def assms(1) cv2_split_3 [OF sb] db
        del: append.simps)
qed


declare demosaicing.simps [simp del]

lemma demosaicing_not_code:
  assumes "\<forall>c. code \<noteq> Code c"
  shows "demosaicing cv2 img code = Inl (TypeError CodeNotColorConversionCode)"
proof (cases code)
  case (Code c)
  with assms show ?thesis by blast
qed (subst demosaicing.simps, simp)+

lemma demosaicing_integer:
  "\<not> is_floating (dtype img) \<Longrightarrow>
   demosaicing cv2 img (Code c) =
     (if dtype img \<notin> {UInt8, UInt16} then Inl (TypeError DtypeNotUInt)
      else if length (shape img) \<noteq> 2 then Inl (ValueError DimensionNot2)
      else if is_color c then demosaicing_color cv2 img (suffix c)
      else demosaicing_mono cv2 img (suffix c))"
  by (subst demosaicing.simps) simp

lemma demosaicing_floating:
  "is_floating (dtype img) \<Longrightarrow>
   demosaicing cv2 img (Code c) =
     (case np_max (data img) of
        Inl e \<Rightarrow> Inl e
      | Inr m \<Rightarrow>
          (case demosaicing cv2 (to_u16 m img) (Code c) of
             Inl e \<Rightarrow> Inl e
           | Inr img_demosaiced_u16 \<Rightarrow>
               if list_all (\<lambda>a. shape a = shape (hd img_demosaiced_u16)) img_demosaiced_u16
               then Inr (map (from_u16 m (dtype img)) img_demosaiced_u16)
               else Inl (ValueError ShapeMismatch)))"
  by (subst demosaicing.simps) simp

lemma to_u16_fields:
  "dtype (to_u16 m img) = UInt16" "shape (to_u16 m img) = shape img"
  by (simp_all add: to_u16_def)

lemma np_clip_range: "lo \<le> hi \<Longrightarrow> lo \<le> np_clip x lo hi \<and> np_clip x lo hi \<le> hi"
  by (auto simp: np_clip_def)

lemma to_u16_is_plane:
  assumes "is_plane dt h w img"
  shows "is_plane UInt16 h w (to_u16 m img)"
proof -
  have "0 \<le> real_of_int \<lfloor>np_clip y 0 65535\<rfloor> \<and> real_of_int \<lfloor>np_clip y 0 65535\<rfloor> \<le> 65535"
    for y :: real
  proof -
    have "0 \<le> np_clip y 0 65535" "np_clip y 0 65535 \<le> 65535"
      using np_clip_range [of 0 65535 y] by simp_all
    then have "0 \<le> \<lfloor>np_clip y 0 65535\<rfloor>" "\<lfloor>np_clip y 0 65535\<rfloor> \<le> 65535"
      by (simp_all add: floor_le_iff)
    then show ?thesis by simp
  qed
  with assms show ?thesis
    by (auto simp: is_plane_def valid_array_def wf_array_def to_u16_def list_all_iff)
qed

text \<open>What the integer path returns for a recognised suffix.\<close>

lemma demosaicing_integer_images:
  assumes "cv2 (''COLOR_BayerBG2BGR'' @ suffix c) = Some bg" "debayer bg"
    and "cv2 (''COLOR_BayerGR2BGR'' @ suffix c) = Some gr" "debayer gr"
    and "is_plane dt h w img" "dt \<in> {UInt8, UInt16}"
  shows "\<exists>imgs. demosaicing cv2 img (Code c) = Inr imgs \<and> length imgs = 4 \<and>
           list_all (\<lambda>a. valid_array a \<and> dtype a = dt \<and>
                          shape a = (if is_color c then [h, w, 3] else [h, w])) imgs"
proof -
  from assms(5,6) have d: "dtype img \<in> {UInt8, UInt16}" "\<not> is_floating (dtype img)"
    and sh: "length (shape img) = 2"
    by (auto simp: is_plane_def)
  show ?thesis
  proof (cases "is_color c")
    case True
    from demosaicing_color_images [OF assms(1-5)] True d sh show ?thesis
      by (auto simp: demosaicing_integer is_bgr_def list_all_iff)
  next
    case False
    from demosaicing_mono_planes [OF assms(1-5)] False d sh show ?thesis
      by (auto simp: demosaicing_integer is_plane_def list_all_iff)
  qed
qed

lemma fold_max_eq: "fold max xs (x::real) = Max (set (x # xs))"
  by (rule Max.set_eq_fold [symmetric])

lemma from_u16_range:
  assumes "0 < (m::real)" "0 \<le> v" "v \<le> 65535"
  shows "0 \<le> v / (65535 / m) \<and> v / (65535 / m) \<le> m"
proof -
  have e: "v / (65535 / m) = v * m / 65535" by simp
  from assms have "0 \<le> v * m" by simp
  moreover from assms have "v * m \<le> 65535 * m" by (intro mult_right_mono) simp_all
  ultimately show ?thesis unfolding e by simp
qed

lemma toy_bg_debayer: "debayer toy_bg"
proof -
  have "in_range dt 1 \<and> in_range dt 0" for dt by (cases dt) simp_all
  then show ?thesis
    by (auto simp: debayer_def is_plane_def is_bgr_def valid_array_def wf_array_def toy_bg_def
        list_all_iff length_concat o_def sum_list_triv)
qed

lemma toy_gr_debayer: "debayer toy_gr"
proof -
  have "in_range dt 1 \<and> in_range dt 0" for dt by (cases dt) simp_all
  then show ?thesis
    by (auto simp: debayer_def is_plane_def is_bgr_def valid_array_def wf_array_def toy_gr_def
        list_all_iff length_concat o_def sum_list_triv)
qed

lemma toy_cv2_bg: "toy_cv2 (''COLOR_BayerBG2BGR'' @ suffix COLOR_PolarMono) = Some toy_bg"
  by (simp add: toy_cv2_def COLOR_PolarMono_def)

lemma toy_cv2_gr: "toy_cv2 (''COLOR_BayerGR2BGR'' @ suffix COLOR_PolarMono) = Some toy_gr"
  by (simp add: toy_cv2_def COLOR_PolarMono_def)

lemma toy_cv2_rgb_bg: "toy_cv2 (''COLOR_BayerBG2BGR'' @ suffix COLOR_PolarRGB) = Some toy_bg"
  by (simp add: toy_cv2_def COLOR_PolarRGB_def)

lemma toy_cv2_rgb_gr: "toy_cv2 (''COLOR_BayerGR2BGR'' @ suffix COLOR_PolarRGB) = Some toy_gr"
  by (simp add: toy_cv2_def COLOR_PolarRGB_def)

lemma from_u16_fields:
  "dtype (from_u16 m dt a) = dt" "shape (from_u16 m dt a) = shape a"
  by (simp_all add: from_u16_def)

lemma to_u16_explicit:
  "to_u16 m img =
     \<lparr>dtype = UInt16, shape = shape img,
      data = map (\<lambda>x. if m = 0 then 0
                       else of_int \<lfloor>min (max (x * (65535 / m)) 0) 65535\<rfloor>) (data img)\<rparr>"
  by (simp add: to_u16_def np_clip_def)

lemma from_u16_explicit:
  "from_u16 m dt a =
     \<lparr>dtype = dt, shape = shape a,
      data = map (\<lambda>v. if m = 0 then 0 else v / (65535 / m)) (data a)\<rparr>"
  by (simp add: from_u16_def)

lemma from_u16_range_all:
  assumes "0 \<le> v" "v \<le> 65535"
  shows "min 0 m \<le> (if m = 0 then 0 else v / (65535 / m)) \<and>
         (if m = 0 then 0 else v / (65535 / m)) \<le> max 0 (m::real)"
proof -
  consider "m = 0" | "0 < m" | "m < 0" by linarith
  then show ?thesis
  proof cases
    case 1
    then show ?thesis by simp
  next
    case 2
    with from_u16_range [OF 2 assms] show ?thesis by simp
  next
    case 3
    have e: "v / (65535 / m) = v * m / 65535" by simp
    from 3 assms have "v * m \<le> 0" by (simp add: mult_nonneg_nonpos)
    moreover from 3 assms have "65535 * m \<le> v * m" by (intro mult_right_mono_neg) simp_all
    ultimately show ?thesis using 3 unfolding e by simp
  qed
qed

lemma from_u16_data_range_all:
  assumes "valid_array a" "dtype a = UInt16"
  shows "\<forall>v \<in> set (data (from_u16 m dt a)). min 0 m \<le> v \<and> v \<le> max 0 m"
proof
  fix v assume "v \<in> set (data (from_u16 m dt a))"
  then have "v \<in> (\<lambda>u. if m = 0 then 0 else u / (65535 / m)) ` set (data a)"
    by (simp only: from_u16_explicit ndarray.simps set_map)
  then obtain u where u: "u \<in> set (data a)" "v = (if m = 0 then 0 else u / (65535 / m))"
    by (rule imageE) (rule that)
  with assms have "0 \<le> u" "u \<le> 65535"
    by (auto simp: valid_array_def list_all_iff)
  then show "min 0 m \<le> v \<and> v \<le> max 0 m" unfolding u(2) by (rule from_u16_range_all)
qed

lemma rescale_error:
  assumes "0 < (m::real)" "0 \<le> x" "x \<le> m"
  shows "x - m / 65535 < of_int \<lfloor>min (max (x * (65535 / m)) 0) 65535\<rfloor> / (65535 / m) \<and>
         of_int \<lfloor>min (max (x * (65535 / m)) 0) 65535\<rfloor> / (65535 / m) \<le> x"
proof -
  let ?y = "x * (65535 / m)"
  have y: "0 \<le> ?y" "?y \<le> 65535"
    using assms by (simp_all add: pos_divide_le_eq mult.commute mult_left_mono)
  then have c: "min (max ?y 0) 65535 = ?y" by simp
  have f: "?y - 1 < of_int \<lfloor>?y\<rfloor>" "of_int \<lfloor>?y\<rfloor> \<le> ?y" by linarith+
  have s: "0 < m / 65535" using assms(1) by simp
  have e: "of_int \<lfloor>?y\<rfloor> / (65535 / m) = of_int \<lfloor>?y\<rfloor> * (m / 65535)" by simp
  have xy: "?y * (m / 65535) = x" using assms(1) by simp
  from f(1) s have "(?y - 1) * (m / 65535) < of_int \<lfloor>?y\<rfloor> * (m / 65535)"
    by (rule mult_strict_right_mono)
  moreover from f(2) s have "of_int \<lfloor>?y\<rfloor> * (m / 65535) \<le> ?y * (m / 65535)"
    by (intro mult_right_mono) simp_all
  moreover have "(?y - 1) * (m / 65535) = x - m / 65535"
    using xy by (simp add: left_diff_distrib)
  ultimately show ?thesis unfolding c e using xy by simp
qed

lemma toy_mono_run:
  "demosaicing toy_cv2 \<lparr>dtype = UInt16, shape = [2, 2], data = [32767, 65535, 16383, 0]\<rparr>
     (Code COLOR_PolarMono) =
   Inr [\<lparr>dtype = UInt16, shape = [2, 2], data = [32767, 65535, 16383, 0]\<rparr>,
        \<lparr>dtype = UInt16, shape = [2, 2], data = [0, 0, 0, 0]\<rparr>,
        \<lparr>dtype = UInt16, shape = [2, 2], data = [0, 0, 0, 0]\<rparr>,
        \<lparr>dtype = UInt16, shape = [2, 2], data = [32767, 65535, 16383, 0]\<rparr>]"
  by (simp add: demosaicing_integer COLOR_PolarMono_def demosaicing_mono_def toy_cv2_def
      toy_bg_def toy_gr_def cv2_split_def channel_def upt_rec)

section \<open>Linear algebra of the Stokes fit\<close>

lemma dot_sum:
  assumes "length xs = length ys"
  shows "dot xs ys = (\<Sum>i<length xs. xs ! i * ys ! i)"
proof -
  have "dot xs ys = (\<Sum>i = 0..<length (map2 (*) xs ys). map2 (*) xs ys ! i)"
    unfolding dot_def by (rule sum_list_sum_nth)
  also have "\<dots> = (\<Sum>i = 0..<length xs. xs ! i * ys ! i)"
    using assms by (intro sum.cong) simp_all
  finally show ?thesis by (simp add: atLeast0LessThan)
qed

lemma length_mv: "length (mv A x) = length A"
  by (simp add: mv_def)

lemma mv_nth: "i < length A \<Longrightarrow> mv A x ! i = dot (A ! i) x"
  by (simp add: mv_def)

lemma is_matrix_row: "is_matrix n k A \<Longrightarrow> i < n \<Longrightarrow> length (A ! i) = k"
  by (auto simp: is_matrix_def list_all_iff)

lemma is_matrix_length: "is_matrix n k A \<Longrightarrow> length A = n"
  by (simp add: is_matrix_def)

lemma dot_mv:
  assumes "is_matrix m c B" "length r = m" "length x = c"
  shows "dot r (mv B x) = (\<Sum>l<m. \<Sum>j<c. r ! l * B ! l ! j * x ! j)"
proof -
  have "dot r (mv B x) = (\<Sum>l<m. r ! l * mv B x ! l)"
    using assms by (simp add: dot_sum length_mv is_matrix_length)
  also have "\<dots> = (\<Sum>l<m. r ! l * (\<Sum>j<c. B ! l ! j * x ! j))"
    using assms
    by (intro sum.cong refl) (simp add: mv_nth is_matrix_length is_matrix_row dot_sum)
  finally show ?thesis by (simp add: sum_distrib_left mult.assoc)
qed

lemma mv_mm:
  assumes "is_matrix n m A" "is_matrix m c B" "length x = c"
  shows "mv (mm c A B) x = mv A (mv B x)"
proof (rule nth_equalityI)
  show "length (mv (mm c A B) x) = length (mv A (mv B x))"
    by (simp add: mv_def mm_def)
next
  fix i assume "i < length (mv (mm c A B) x)"
  then have i: "i < length A" by (simp add: mv_def mm_def)
  with assms(1) have ri: "length (A ! i) = m" by (simp add: is_matrix_row is_matrix_length)
  from assms(2) have lB: "length B = m" by (rule is_matrix_length)
  have "mv (mm c A B) x ! i = dot (map (\<lambda>j. dot (A ! i) (col j B)) [0..<c]) x"
    using i by (simp add: mv_def mm_def)
  also have "\<dots> = (\<Sum>j<c. dot (A ! i) (col j B) * x ! j)"
    using assms(3) by (simp add: dot_sum)
  also have "\<dots> = (\<Sum>j<c. (\<Sum>l<m. A ! i ! l * B ! l ! j) * x ! j)"
    using ri lB by (simp add: dot_sum col_def)
  also have "\<dots> = (\<Sum>j<c. \<Sum>l<m. A ! i ! l * B ! l ! j * x ! j)"
    by (simp add: sum_distrib_right)
  also have "\<dots> = (\<Sum>l<m. \<Sum>j<c. A ! i ! l * B ! l ! j * x ! j)"
    by (rule sum.swap)
  also have "\<dots> = dot (A ! i) (mv B x)"
    using assms(2,3) ri by (simp add: dot_mv)
  finally show "mv (mm c A B) x ! i = mv A (mv B x) ! i"
    using i by (simp add: mv_nth)
qed

lemma is_matrix_mm: "length A = n \<Longrightarrow> is_matrix n c (mm c A B)"
  by (simp add: is_matrix_def mm_def list_all_iff)

lemma dot_commute: "dot xs ys = dot ys xs"
proof -
  have "map2 (*) xs ys = map2 (*) ys (xs :: real list)"
    by (induction xs ys rule: list_induct2') simp_all
  then show ?thesis by (simp add: dot_def)
qed

lemma dot_mv_transpose:
  assumes "is_matrix r c T" "length x = c" "length y = r"
  shows "dot (mv T x) y = dot x (mv (mtranspose c T) y)"
proof -
  have tT: "is_matrix c r (mtranspose c T)"
    using assms(1) by (simp add: is_matrix_def mtranspose_def col_def list_all_iff)
  have "dot (mv T x) y = dot y (mv T x)" by (rule dot_commute)
  also have "\<dots> = (\<Sum>i<r. \<Sum>j<c. y ! i * T ! i ! j * x ! j)"
    using assms by (simp add: dot_mv)
  also have "\<dots> = (\<Sum>j<c. \<Sum>i<r. y ! i * T ! i ! j * x ! j)"
    by (rule sum.swap)
  also have "\<dots> = (\<Sum>j<c. \<Sum>i<r. x ! j * mtranspose c T ! j ! i * y ! i)"
    using assms(1)
    by (intro sum.cong refl) (simp add: mtranspose_def col_def is_matrix_length mult_ac)
  also have "\<dots> = dot x (mv (mtranspose c T) y)"
    using tT assms by (simp add: dot_mv)
  finally show ?thesis .
qed


lemma mv_vsub:
  assumes "is_matrix n k A" "length x = k" "length y = k"
  shows "mv A (vsub x y) = vsub (mv A x) (mv A y)"
proof (rule nth_equalityI)
  show "length (mv A (vsub x y)) = length (vsub (mv A x) (mv A y))"
    by (simp add: mv_def vsub_def)
next
  fix i assume "i < length (mv A (vsub x y))"
  then have i: "i < length A" by (simp add: mv_def)
  with assms(1) have ri: "length (A ! i) = k" by (simp add: is_matrix_row is_matrix_length)
  have "dot (A ! i) (vsub x y) = (\<Sum>j<k. A ! i ! j * (x ! j - y ! j))"
    using ri assms by (simp add: dot_sum vsub_def)
  also have "\<dots> = dot (A ! i) x - dot (A ! i) y"
    using ri assms by (simp add: dot_sum right_diff_distrib sum_subtractf)
  finally show "mv A (vsub x y) ! i = vsub (mv A x) (mv A y) ! i"
    using i by (simp add: mv_nth vsub_def length_mv)
qed

lemma vsub_self: "vsub x x = replicate (length x) 0"
  by (induction x) (simp_all add: vsub_def)

lemma dot_zero_right: "length x = n \<Longrightarrow> dot x (replicate n 0) = 0"
  by (simp add: dot_sum)

lemma norm2_nonneg: "0 \<le> norm2 x"
  by (simp add: norm2_def dot_sum sum_nonneg)

lemma norm2_zero:
  assumes "norm2 x = 0"
  shows "x = replicate (length x) 0"
proof (rule nth_equalityI)
  fix i assume i: "i < length x"
  from assms have "(\<Sum>i<length x. x ! i * x ! i) = 0" by (simp add: norm2_def dot_sum)
  then have "\<forall>i \<in> {..<length x}. x ! i * x ! i = 0"
    by (subst (asm) sum_nonneg_eq_0_iff) simp_all
  with i show "x ! i = replicate (length x) 0 ! i" by simp
qed simp

text \<open>Pythagoras for three points: if \<open>a - b\<close> is orthogonal to \<open>b - c\<close>.\<close>

lemma norm2_orthogonal:
  assumes "length a = n" "length b = n" "length c = n"
    and "dot (vsub a b) (vsub b c) = 0"
  shows "norm2 (vsub a c) = norm2 (vsub a b) + norm2 (vsub b c)"
proof -
  have "norm2 (vsub a c) = (\<Sum>i<n. (a ! i - c ! i) * (a ! i - c ! i))"
    using assms by (simp add: norm2_def dot_sum vsub_def)
  also have "\<dots> = (\<Sum>i<n. (a ! i - b ! i) * (a ! i - b ! i) +
                  (b ! i - c ! i) * (b ! i - c ! i) +
                  2 * ((a ! i - b ! i) * (b ! i - c ! i)))"
    by (intro sum.cong refl) (simp add: algebra_simps)
  also have "\<dots> = norm2 (vsub a b) + norm2 (vsub b c) + 2 * dot (vsub a b) (vsub b c)"
    using assms(1-3) by (simp add: norm2_def dot_sum vsub_def sum.distrib sum_distrib_left)
  finally show ?thesis using assms(4) by simp
qed


lemma vsub_zero: "length x = n \<Longrightarrow> vsub x (replicate n 0) = x"
  by (rule nth_equalityI) (simp_all add: vsub_def)

lemma vsub_eq_zero:
  assumes "length a = n" "length b = n" "vsub a b = replicate n 0"
  shows "a = b"
proof (rule nth_equalityI)
  fix i assume i: "i < length a"
  with assms have "vsub a b ! i = 0" by simp
  with i assms(1,2) show "a ! i = b ! i" by (simp add: vsub_def)
qed (simp add: assms)

lemma length_vsub: "length (vsub x y) = min (length x) (length y)"
  by (simp add: vsub_def)

lemma mv_zero: "is_matrix n k A \<Longrightarrow> mv A (replicate k 0) = replicate n 0"
  by (rule nth_equalityI)
     (simp_all add: length_mv is_matrix_length mv_nth is_matrix_row dot_zero_right)

lemma penrose_1:
  assumes "moore_penrose n k A P" "length x = k"
  shows "mv A (mv P (mv A x)) = mv A x"
proof -
  from assms(1) have A: "is_matrix n k A" and P: "is_matrix k n P"
    and e: "mm k A (mm k P A) = A"
    by (simp_all add: moore_penrose_def)
  have "mv A x = mv (mm k A (mm k P A)) x" by (simp add: e)
  also have "\<dots> = mv A (mv (mm k P A) x)"
    using A is_matrix_mm [of P k k A] P assms(2) by (intro mv_mm) (simp_all add: is_matrix_length)
  also have "mv (mm k P A) x = mv P (mv A x)"
    using P A assms(2) by (rule mv_mm)
  finally show ?thesis by simp
qed

lemma penrose_2:
  assumes "moore_penrose n k A P" "length y = n"
  shows "mv P (mv A (mv P y)) = mv P y"
proof -
  from assms(1) have A: "is_matrix n k A" and P: "is_matrix k n P"
    and e: "mm n P (mm n A P) = P"
    by (simp_all add: moore_penrose_def)
  have "mv P y = mv (mm n P (mm n A P)) y" by (simp add: e)
  also have "\<dots> = mv P (mv (mm n A P) y)"
    using P is_matrix_mm [of A n n P] A assms(2) by (intro mv_mm) (simp_all add: is_matrix_length)
  also have "mv (mm n A P) y = mv A (mv P y)"
    using A P assms(2) by (rule mv_mm)
  finally show ?thesis by simp
qed

lemma penrose_3:
  assumes "moore_penrose n k A P" "length x = n" "length y = n"
  shows "dot (mv A (mv P x)) y = dot x (mv A (mv P y))"
proof -
  from assms(1) have A: "is_matrix n k A" and P: "is_matrix k n P"
    and e: "mtranspose n (mm n A P) = mm n A P"
    by (simp_all add: moore_penrose_def)
  have T: "is_matrix n n (mm n A P)" using A by (intro is_matrix_mm) (rule is_matrix_length)
  have "mv A (mv P x) = mv (mm n A P) x" using A P assms(2) by (rule mv_mm [symmetric])
  moreover have "mv A (mv P y) = mv (mm n A P) y" using A P assms(3) by (rule mv_mm [symmetric])
  ultimately show ?thesis using dot_mv_transpose [OF T assms(2,3)] by (simp add: e)
qed

lemma penrose_4:
  assumes "moore_penrose n k A P" "length x = k" "length y = k"
  shows "dot (mv P (mv A x)) y = dot x (mv P (mv A y))"
proof -
  from assms(1) have A: "is_matrix n k A" and P: "is_matrix k n P"
    and e: "mtranspose k (mm k P A) = mm k P A"
    by (simp_all add: moore_penrose_def)
  have T: "is_matrix k k (mm k P A)" using P by (intro is_matrix_mm) (rule is_matrix_length)
  have "mv P (mv A x) = mv (mm k P A) x" using P A assms(2) by (rule mv_mm [symmetric])
  moreover have "mv P (mv A y) = mv (mm k P A) y" using P A assms(3) by (rule mv_mm [symmetric])
  ultimately show ?thesis using dot_mv_transpose [OF T assms(2,3)] by (simp add: e)
qed

text \<open>The residual of \<open>P p\<close> is orthogonal to the range of \<open>A\<close>.\<close>

lemma residual_orthogonal:
  assumes mp: "moore_penrose n k A P" and p: "length p = n" and s': "length s' = k"
  shows "dot (vsub (mv A s') (mv A (mv P p))) (vsub (mv A (mv P p)) p) = 0"
proof -
  from mp have A: "is_matrix n k A" and P: "is_matrix k n P"
    by (simp_all add: moore_penrose_def)
  let ?s = "mv P p"
  have ls: "length ?s = k" using P by (simp add: length_mv is_matrix_length)
  have lA: "length (mv A z) = n" for z using A by (simp add: length_mv is_matrix_length)
  let ?u = "vsub (mv A s') (mv A ?s)"
  let ?r = "vsub (mv A ?s) p"
  have u: "?u = mv A (vsub s' ?s)" using A s' ls by (rule mv_vsub [symmetric])
  have ld: "length (vsub s' ?s) = k" using s' ls by (simp add: length_vsub)
  have lu: "length ?u = n" by (simp add: length_vsub lA)
  have lr: "length ?r = n" using p by (simp add: length_vsub lA)
  have Pu: "mv A (mv P ?u) = ?u" unfolding u using mp ld by (rule penrose_1)
  have "mv A (mv P ?r) = mv A (vsub (mv P (mv A ?s)) (mv P p))"
    using P p by (simp add: mv_vsub [OF P] lA)
  also have "\<dots> = vsub (mv A (mv P (mv A ?s))) (mv A (mv P p))"
    using A P by (intro mv_vsub) (simp_all add: length_mv is_matrix_length)
  also have "mv A (mv P (mv A ?s)) = mv A ?s" using mp ls by (rule penrose_1)
  finally have Pr: "mv A (mv P ?r) = replicate n 0" by (simp add: vsub_self lA)
  have "dot ?u ?r = dot (mv A (mv P ?u)) ?r" by (simp add: Pu)
  also have "\<dots> = dot ?u (mv A (mv P ?r))" using mp lu lr by (rule penrose_3)
  also have "\<dots> = 0" unfolding Pr using lu by (rule dot_zero_right)
  finally show ?thesis .
qed

lemma least_squares:
  assumes mp: "moore_penrose n k A P" and p: "length p = n" and s': "length s' = k"
  shows "norm2 (vsub (mv A (mv P p)) p) \<le> norm2 (vsub (mv A s') p)"
proof -
  from mp have A: "is_matrix n k A" by (simp add: moore_penrose_def)
  have lA: "length (mv A z) = n" for z using A by (simp add: length_mv is_matrix_length)
  have "norm2 (vsub (mv A s') p) =
          norm2 (vsub (mv A s') (mv A (mv P p))) + norm2 (vsub (mv A (mv P p)) p)"
    using lA lA p residual_orthogonal [OF assms] by (rule norm2_orthogonal)
  then show ?thesis using norm2_nonneg [of "vsub (mv A s') (mv A (mv P p))"] by simp
qed

lemma minimum_norm:
  assumes mp: "moore_penrose n k A P" and p: "length p = n" and s': "length s' = k"
    and eq: "norm2 (vsub (mv A s') p) = norm2 (vsub (mv A (mv P p)) p)"
  shows "norm2 (mv P p) \<le> norm2 s'"
proof -
  from mp have A: "is_matrix n k A" and P: "is_matrix k n P"
    by (simp_all add: moore_penrose_def)
  let ?s = "mv P p"
  have ls: "length ?s = k" using P by (simp add: length_mv is_matrix_length)
  have lA: "length (mv A z) = n" for z using A by (simp add: length_mv is_matrix_length)
  have "norm2 (vsub (mv A s') p) =
          norm2 (vsub (mv A s') (mv A ?s)) + norm2 (vsub (mv A ?s) p)"
    using lA lA p residual_orthogonal [OF mp p s'] by (rule norm2_orthogonal)
  with eq have "norm2 (vsub (mv A s') (mv A ?s)) = 0" by simp
  then have z: "vsub (mv A s') (mv A ?s) = replicate n 0"
    using norm2_zero [of "vsub (mv A s') (mv A ?s)"] by (simp add: length_vsub lA)
  with lA lA have same: "mv A s' = mv A ?s" by (rule vsub_eq_zero)
  have Qs': "mv P (mv A s') = ?s" unfolding same using mp p by (rule penrose_2)
  let ?d = "vsub s' ?s"
  have ld: "length ?d = k" using s' ls by (simp add: length_vsub)
  have "mv A ?d = vsub (mv A s') (mv A ?s)" using A s' ls by (rule mv_vsub)
  with z have "mv P (mv A ?d) = replicate k 0" using P by (simp add: mv_zero)
  have "dot ?d (vsub ?s (replicate k 0)) = dot ?d ?s" using ls by (simp add: vsub_zero)
  also have "\<dots> = dot (mv P (mv A s')) ?d" by (simp add: Qs' dot_commute)
  also have "\<dots> = dot s' (mv P (mv A ?d))" using mp s' ld by (rule penrose_4)
  also have "\<dots> = 0"
    using \<open>mv P (mv A ?d) = replicate k 0\<close> s' by (simp add: dot_zero_right)
  finally have "norm2 (vsub s' (replicate k 0)) = norm2 ?d + norm2 (vsub ?s (replicate k 0))"
    using s' ls by (intro norm2_orthogonal [of _ k]) simp_all
  then have "norm2 s' = norm2 ?d + norm2 ?s" using s' ls by (simp add: vsub_zero)
  then show ?thesis using norm2_nonneg [of ?d] by simp
qed

lemma map_nth_upt: "map (\<lambda>i. f (xs ! i)) [0..<length xs] = map f xs"
  by (rule nth_equalityI) simp_all

lemma calcStokes_eq:
  assumes "list_all (\<lambda>m. m \<noteq> []) M" "is_matrix k n (pinv (map hd M))"
    and "list_all (\<lambda>p. length p = n) I"
  shows "calcStokes pinv I M = Inr (map (mv (pinv (map hd M))) I)"
proof -
  let ?P = "pinv (map hd M)"
  have t: "tensordot ?P I = Inr (map (\<lambda>r. map (\<lambda>p. dot r p) I) ?P)"
    using assms(2,3) by (auto simp: tensordot_def is_matrix_def list_all_iff)
  have "moveaxis (map (\<lambda>r. map (\<lambda>p. dot r p) I) ?P) (length I) =
          map (\<lambda>i. mv ?P (I ! i)) [0..<length I]"
    by (simp add: moveaxis_def mv_def)
  also have "\<dots> = map (mv ?P) I" by (rule map_nth_upt)
  finally show ?thesis
    using assms(1) by (simp add: calcStokes_def first_rows_def t)
qed

lemma four_angle_rows:
  "malus_rows g four_angles = [[g, g, 0], [g, 0, g], [g, - g, 0], [g, 0, - g]]"
proof -
  have "2 * (3 * pi / 4) = 3 / 2 * pi" by simp
  then have "cos (2 * (3 * pi / 4)) = 0" "sin (2 * (3 * pi / 4)) = - 1"
    by (simp_all only: cos_3over2_pi sin_3over2_pi)
  then show ?thesis by (simp add: malus_rows_def four_angles_def)
qed

lemma polarizer_first_rows:
  "first_rows (map (\<lambda>t. map (take 3) (take 3 (polarizer g t))) theta)
     = Inr (malus_rows g theta)"
  by (simp add: first_rows_def polarizer_def malus_rows_def list_all_iff Let_def)

lemma polarizer_hd:
  "map hd (map (\<lambda>t. map (take 3) (take 3 (polarizer g t))) theta) = malus_rows g theta"
  by (simp add: polarizer_def malus_rows_def Let_def)

lemma pinv4_moore_penrose:
  assumes "g \<noteq> 0"
  shows "moore_penrose 4 3 (malus_rows g four_angles) (pinv4 g A)"
  using assms
  by (simp add: four_angle_rows moore_penrose_def is_matrix_def pinv4_def mm_def mtranspose_def
      col_def dot_def upt_rec eval_nat_numeral)


lemma length3: "length (x :: 'a list) = 3 \<Longrightarrow> \<exists>a b c. x = [a, b, c]"
  by (auto simp: numeral_3_eq_3 length_Suc_conv)

lemma pinv_left_inverse:
  assumes mp: "moore_penrose 4 3 (malus_rows g four_angles) P" and g: "g \<noteq> 0"
    and x: "length x = 3"
  shows "mv P (mv (malus_rows g four_angles) x) = x"
proof -
  let ?A = "malus_rows g four_angles"
  let ?y = "mv P (mv ?A x)"
  from mp have "length P = 3" by (simp add: moore_penrose_def is_matrix_def)
  then have "length ?y = 3" by (simp add: length_mv)
  then obtain a b c where y: "?y = [a, b, c]" using length3 by blast
  from x obtain d e f where xe: "x = [d, e, f]" using length3 by blast
  have "mv ?A ?y = mv ?A x" using mp x by (rule penrose_1)
  then have "mv ?A [a, b, c] = mv ?A [d, e, f]" by (simp only: y xe [symmetric])
  moreover have "mv ?A [u, v, w] = [g * (u + v), g * (u + w), g * (u - v), g * (u - w)]"
    for u v w
    by (simp add: four_angle_rows mv_def dot_def algebra_simps)
  ultimately have "g * (a + b) = g * (d + e)" "g * (a + c) = g * (d + f)"
    "g * (a - b) = g * (d - e)"
    by simp_all
  with g have "a + b = d + e" "a + c = d + f" "a - b = d - e"
    by simp_all
  then have "a = d \<and> b = e \<and> c = f" by simp
  with y xe show ?thesis by simp
qed

lemma synthetic_as_product:
  assumes "g \<noteq> 0"
  shows "synthetic theta (S0, S1, S2) = mv (malus_rows g theta) [S0 / g, S1 / g, S2 / g]"
  using assms by (simp add: synthetic_def mv_def malus_rows_def dot_def)

lemma linear_fit:
  assumes "g \<noteq> 0"
    and "moore_penrose 4 3 (malus_rows g four_angles) (pinv (malus_rows g four_angles))"
  shows "calcLinearStokes pinv g (map (synthetic four_angles) Ss) four_angles =
           Inr (map (\<lambda>(S0, S1, S2). [S0 / g, S1 / g, S2 / g]) Ss)"
proof -
  let ?A = "malus_rows g four_angles"
  let ?M = "map (\<lambda>t. map (take 3) (take 3 (polarizer g t))) four_angles"
  have hd: "map hd ?M = ?A" by (rule polarizer_hd)
  have ne: "list_all (\<lambda>m. m \<noteq> []) ?M"
    by (simp add: list_all_iff polarizer_def Let_def)
  have P: "is_matrix 3 4 (pinv (map hd ?M))"
    unfolding hd using assms(2) by (simp add: moore_penrose_def)
  have len: "list_all (\<lambda>p. length p = 4) (map (synthetic four_angles) Ss)"
    by (auto simp: list_all_iff synthetic_def four_angles_def)
  have "mv (pinv ?A) (synthetic four_angles S) = (case S of (S0, S1, S2) \<Rightarrow> [S0 / g, S1 / g, S2 / g])"
    for S
  proof (cases S)
    case (fields S0 S1 S2)
    show ?thesis
      unfolding fields synthetic_as_product [OF assms(1)]
      using pinv_left_inverse [OF assms(2,1), of "[S0 / g, S1 / g, S2 / g]"] by simp
  qed
  then have mapeq: "map (mv (pinv ?A)) (map (synthetic four_angles) Ss) =
               map (\<lambda>(S0, S1, S2). [S0 / g, S1 / g, S2 / g]) Ss"
    by simp
  have cs: "calcStokes pinv (map (synthetic four_angles) Ss) ?M =
              Inr (map (mv (pinv ?A)) (map (synthetic four_angles) Ss))"
    using calcStokes_eq [where pinv = pinv and M = ?M, OF ne P len] unfolding hd .
  show ?thesis
    unfolding calcLinearStokes_def Let_def cs mapeq by (rule refl)
qed

section \<open>Claims about demosaicing\<close>

text \<open>
  C1 (monochrome path). For a well-formed uint8 or uint16 frame with two axes and a
  monochrome descriptor whose two conversion codes OpenCV has, demosaicing debayers the
  whole frame twice, once with the BG code and once with the GR code, and returns, in
  this order, channel 0 of the BG result (0 degrees), channel 0 of the GR result (45
  degrees), channel 2 of the BG result (90 degrees) and channel 2 of the GR result (135
  degrees). Channel 1 of either result, the green analogue, is not part of the result.
\<close>

theorem mono_two_passes:
  assumes "cv2 (''COLOR_BayerBG2BGR'' @ suffix c) = Some bg" "debayer bg"
    and "cv2 (''COLOR_BayerGR2BGR'' @ suffix c) = Some gr" "debayer gr"
    and "is_plane dt h w img" "dt \<in> {UInt8, UInt16}" "\<not> is_color c"
  shows "demosaicing cv2 img (Code c) =
           Inr [channel 0 (bg img), channel 0 (gr img), channel 2 (bg img), channel 2 (gr img)]"
proof -
  from assms(5,6) have d: "dtype img \<in> {UInt8, UInt16}" "\<not> is_floating (dtype img)"
    and sh: "length (shape img) = 2"
    by (auto simp: is_plane_def)
  from assms have "is_bgr dt h w (bg img)" "is_bgr dt h w (gr img)"
    by (auto intro: debayerD)
  then have "shape (bg img) = [h, w, 3]" "shape (gr img) = [h, w, 3]"
    by (auto simp: is_bgr_def)
  from demosaicing_mono_eq [OF assms(1,3) this] d sh assms(7) show ?thesis
    by (simp add: demosaicing_integer)
qed

theorem mono_two_passes_witness:
  "toy_cv2 (''COLOR_BayerBG2BGR'' @ suffix COLOR_PolarMono) = Some toy_bg \<and> debayer toy_bg \<and>
   toy_cv2 (''COLOR_BayerGR2BGR'' @ suffix COLOR_PolarMono) = Some toy_gr \<and> debayer toy_gr \<and>
   is_plane UInt8 2 2 \<lparr>dtype = UInt8, shape = [2, 2], data = [5, 6, 7, 8]\<rparr> \<and>
   UInt8 \<in> {UInt8, UInt16} \<and> \<not> is_color COLOR_PolarMono \<and>
   demosaicing toy_cv2 \<lparr>dtype = UInt8, shape = [2, 2], data = [5, 6, 7, 8]\<rparr>
       (Code COLOR_PolarMono) =
     Inr [\<lparr>dtype = UInt8, shape = [2, 2], data = [5, 6, 7, 8]\<rparr>,
          \<lparr>dtype = UInt8, shape = [2, 2], data = [0, 0, 0, 0]\<rparr>,
          \<lparr>dtype = UInt8, shape = [2, 2], data = [0, 0, 0, 0]\<rparr>,
          \<lparr>dtype = UInt8, shape = [2, 2], data = [5, 6, 7, 8]\<rparr>]"
proof -
  have p: "is_plane UInt8 2 2 \<lparr>dtype = UInt8, shape = [2, 2], data = [5, 6, 7, 8]\<rparr>"
    by (simp add: is_plane_def valid_array_def wf_array_def)
  have d: "UInt8 \<in> {UInt8, UInt16}" by simp
  have m: "\<not> is_color COLOR_PolarMono" by (simp add: COLOR_PolarMono_def)
  have "demosaicing toy_cv2 \<lparr>dtype = UInt8, shape = [2, 2], data = [5, 6, 7, 8]\<rparr>
          (Code COLOR_PolarMono) =
        Inr [\<lparr>dtype = UInt8, shape = [2, 2], data = [5, 6, 7, 8]\<rparr>,
             \<lparr>dtype = UInt8, shape = [2, 2], data = [0, 0, 0, 0]\<rparr>,
             \<lparr>dtype = UInt8, shape = [2, 2], data = [0, 0, 0, 0]\<rparr>,
             \<lparr>dtype = UInt8, shape = [2, 2], data = [5, 6, 7, 8]\<rparr>]"
    unfolding mono_two_passes [OF toy_cv2_bg toy_bg_debayer toy_cv2_gr toy_gr_debayer p d m]
    by (simp add: channel_def toy_bg_def toy_gr_def upt_rec)
  with toy_cv2_bg toy_bg_debayer toy_cv2_gr toy_gr_debayer p d m show ?thesis by blast
qed

text \<open>
  C3 (four images of the frame's size). For a well-formed uint8 or uint16 frame of even
  height and width and a descriptor whose conversion codes OpenCV has, demosaicing returns
  exactly four images, and each has the height and width of the frame (followed by the
  three colour channels for a colour descriptor).
\<close>

theorem four_images_same_size:
  assumes "cv2 (''COLOR_BayerBG2BGR'' @ suffix c) = Some bg" "debayer bg"
    and "cv2 (''COLOR_BayerGR2BGR'' @ suffix c) = Some gr" "debayer gr"
    and "is_plane dt h w img" "dt \<in> {UInt8, UInt16}" "even h" "even w"
  shows "\<exists>imgs. demosaicing cv2 img (Code c) = Inr imgs \<and> length imgs = 4 \<and>
           (\<forall>a \<in> set imgs. shape a = (if is_color c then [h, w, 3] else [h, w]))"
  using demosaicing_integer_images [OF assms(1-6)] by (auto simp: list_all_iff)

theorem four_images_same_size_witness:
  "toy_cv2 (''COLOR_BayerBG2BGR'' @ suffix COLOR_PolarRGB) = Some toy_bg \<and> debayer toy_bg \<and>
   toy_cv2 (''COLOR_BayerGR2BGR'' @ suffix COLOR_PolarRGB) = Some toy_gr \<and> debayer toy_gr \<and>
   is_plane UInt16 2 4 \<lparr>dtype = UInt16, shape = [2, 4], data = [1, 2, 3, 4, 5, 6, 7, 8]\<rparr> \<and>
   UInt16 \<in> {UInt8, UInt16} \<and> even (2::nat) \<and> even (4::nat) \<and>
   (\<exists>imgs. demosaicing toy_cv2
               \<lparr>dtype = UInt16, shape = [2, 4], data = [1, 2, 3, 4, 5, 6, 7, 8]\<rparr>
               (Code COLOR_PolarRGB) = Inr imgs \<and>
           length imgs = 4 \<and> (\<forall>a \<in> set imgs. shape a = [2, 4, 3]))"
proof -
  have p: "is_plane UInt16 2 4
             \<lparr>dtype = UInt16, shape = [2, 4], data = [1, 2, 3, 4, 5, 6, 7, 8]\<rparr>"
    by (simp add: is_plane_def valid_array_def wf_array_def)
  have d: "UInt16 \<in> {UInt8, UInt16}" and e: "even (2::nat)" "even (4::nat)" by simp_all
  have c: "is_color COLOR_PolarRGB" by (simp add: COLOR_PolarRGB_def)
  from four_images_same_size
    [OF toy_cv2_rgb_bg toy_bg_debayer toy_cv2_rgb_gr toy_gr_debayer p d e] c
  have "\<exists>imgs. demosaicing toy_cv2
               \<lparr>dtype = UInt16, shape = [2, 4], data = [1, 2, 3, 4, 5, 6, 7, 8]\<rparr>
               (Code COLOR_PolarRGB) = Inr imgs \<and>
           length imgs = 4 \<and> (\<forall>a \<in> set imgs. shape a = [2, 4, 3])"
    by simp
  with toy_cv2_rgb_bg toy_bg_debayer toy_cv2_rgb_gr toy_gr_debayer p d e show ?thesis
    by blast
qed

text \<open>
  C6 (validation), as amended. The checks run in a fixed order, and the first one that
  fails decides the error: a descriptor that is not a ColorConversionCode gives the
  descriptor TypeError for every frame; with a ColorConversionCode, a dtype that is
  neither floating nor uint8 or uint16 gives the dtype TypeError for every shape; a uint8
  or uint16 frame without exactly two axes gives the shape ValueError. None of the three
  depends on the OpenCV module or on the samples, and an error carries no images. A
  floating-point frame is rescaled before its shape is checked: without exactly two axes
  it fails with the shape ValueError after the rescale, or with the ValueError of
  \<^verbatim>\<open>np.max\<close> when it has no samples.
\<close>

theorem validation_order:
  "((\<forall>c. code \<noteq> Code c) \<longrightarrow>
      demosaicing cv2 img code = Inl (TypeError CodeNotColorConversionCode)) \<and>
   (\<not> is_floating (dtype img) \<and> dtype img \<notin> {UInt8, UInt16} \<longrightarrow>
      demosaicing cv2 img (Code c) = Inl (TypeError DtypeNotUInt)) \<and>
   (dtype img \<in> {UInt8, UInt16} \<and> length (shape img) \<noteq> 2 \<longrightarrow>
      demosaicing cv2 img (Code c) = Inl (ValueError DimensionNot2)) \<and>
   (is_floating (dtype img) \<and> length (shape img) \<noteq> 2 \<longrightarrow>
      demosaicing cv2 img (Code c) =
        (if data img = [] then Inl (ValueError ZeroSizeReduction)
         else Inl (ValueError DimensionNot2)))"
proof (intro conjI impI)
  assume "\<forall>c. code \<noteq> Code c"
  then show "demosaicing cv2 img code = Inl (TypeError CodeNotColorConversionCode)"
    by (rule demosaicing_not_code)
next
  assume "\<not> is_floating (dtype img) \<and> dtype img \<notin> {UInt8, UInt16}"
  then show "demosaicing cv2 img (Code c) = Inl (TypeError DtypeNotUInt)"
    by (simp add: demosaicing_integer)
next
  assume a: "dtype img \<in> {UInt8, UInt16} \<and> length (shape img) \<noteq> 2"
  then have "\<not> is_floating (dtype img)" by auto
  with a show "demosaicing cv2 img (Code c) = Inl (ValueError DimensionNot2)"
    by (simp add: demosaicing_integer)
next
  assume a: "is_floating (dtype img) \<and> length (shape img) \<noteq> 2"
  show "demosaicing cv2 img (Code c) =
        (if data img = [] then Inl (ValueError ZeroSizeReduction)
         else Inl (ValueError DimensionNot2))"
  proof (cases "data img")
    case Nil
    with a show ?thesis by (simp add: demosaicing_floating)
  next
    case (Cons x xs)
    with a show ?thesis
      by (simp add: demosaicing_floating demosaicing_integer to_u16_fields)
  qed
qed

theorem validation_order_witness:
  "demosaicing toy_cv2 \<lparr>dtype = UInt8, shape = [4], data = [1, 2, 3, 4]\<rparr> PyNone
     = Inl (TypeError CodeNotColorConversionCode) \<and>
   demosaicing toy_cv2 \<lparr>dtype = Int32, shape = [2, 2], data = [1, 2, 3, 4]\<rparr>
     (Code COLOR_PolarMono) = Inl (TypeError DtypeNotUInt) \<and>
   demosaicing toy_cv2 \<lparr>dtype = UInt8, shape = [4], data = [1, 2, 3, 4]\<rparr>
     (Code COLOR_PolarMono) = Inl (ValueError DimensionNot2) \<and>
   demosaicing toy_cv2 \<lparr>dtype = Float32, shape = [4], data = [1, 2, 3, 4]\<rparr>
     (Code COLOR_PolarMono) = Inl (ValueError DimensionNot2) \<and>
   demosaicing toy_cv2 \<lparr>dtype = Float32, shape = [0, 2, 2], data = []\<rparr>
     (Code COLOR_PolarMono) = Inl (ValueError ZeroSizeReduction)"
proof (intro conjI)
  show "demosaicing toy_cv2 \<lparr>dtype = UInt8, shape = [4], data = [1, 2, 3, 4]\<rparr> PyNone
     = Inl (TypeError CodeNotColorConversionCode)"
    using validation_order [of PyNone toy_cv2 "\<lparr>dtype = UInt8, shape = [4], data = [1, 2, 3, 4]\<rparr>"]
    by simp
  show "demosaicing toy_cv2 \<lparr>dtype = Int32, shape = [2, 2], data = [1, 2, 3, 4]\<rparr>
     (Code COLOR_PolarMono) = Inl (TypeError DtypeNotUInt)"
    using validation_order [of _ toy_cv2 "\<lparr>dtype = Int32, shape = [2, 2], data = [1, 2, 3, 4]\<rparr>"
        COLOR_PolarMono]
    by simp
  show "demosaicing toy_cv2 \<lparr>dtype = UInt8, shape = [4], data = [1, 2, 3, 4]\<rparr>
     (Code COLOR_PolarMono) = Inl (ValueError DimensionNot2)"
    using validation_order [of _ toy_cv2 "\<lparr>dtype = UInt8, shape = [4], data = [1, 2, 3, 4]\<rparr>"
        COLOR_PolarMono]
    by simp
  show "demosaicing toy_cv2 \<lparr>dtype = Float32, shape = [4], data = [1, 2, 3, 4]\<rparr>
     (Code COLOR_PolarMono) = Inl (ValueError DimensionNot2)"
    using validation_order [of _ toy_cv2 "\<lparr>dtype = Float32, shape = [4], data = [1, 2, 3, 4]\<rparr>"
        COLOR_PolarMono]
    by simp
  show "demosaicing toy_cv2 \<lparr>dtype = Float32, shape = [0, 2, 2], data = []\<rparr>
     (Code COLOR_PolarMono) = Inl (ValueError ZeroSizeReduction)"
    using validation_order [of _ toy_cv2 "\<lparr>dtype = Float32, shape = [0, 2, 2], data = []\<rparr>"
        COLOR_PolarMono]
    by simp
qed

text \<open>
  The claim as stated fails for a frame whose dtype and shape are both wrong: an int32
  frame with three axes is rejected for its dtype, not for its shape.
\<close>

theorem shape_error_counterexample:
  "length (shape \<lparr>dtype = Int32, shape = [2, 1, 1], data = [0, 0]\<rparr>) \<noteq> 2 \<and>
   demosaicing toy_cv2 \<lparr>dtype = Int32, shape = [2, 1, 1], data = [0, 0]\<rparr>
     (Code COLOR_PolarMono) = Inl (TypeError DtypeNotUInt) \<and>
   demosaicing toy_cv2 \<lparr>dtype = Int32, shape = [2, 1, 1], data = [0, 0]\<rparr>
     (Code COLOR_PolarMono) \<noteq> Inl (ValueError DimensionNot2)"
  by (simp add: demosaicing_integer)

text \<open>
  C7 (dtype closure). For a well-formed frame with two axes and a descriptor whose
  conversion codes OpenCV has, the four returned images have the dtype of the frame, for
  uint8 and uint16 frames and for floating-point frames with at least one sample. For a
  floating-point frame with maximum \<open>m\<close> the result is obtained in three steps: every
  sample \<open>x\<close> becomes the uint16 sample \<open>\<lfloor>clip(x \<sqdot> 65535 / m, 0, 65535)\<rfloor>\<close>, that
  frame is demosaiced, and every sample \<open>v\<close> of the four uint16 images becomes
  \<open>v / (65535 / m)\<close> in an image of the frame's dtype (for \<open>m = 0\<close> the factor is an
  infinity and all samples are 0). Every returned sample lies between 0 and \<open>m\<close>, and
  for positive \<open>m\<close> the rescale represents each non-negative sample of the frame with an
  error below \<open>m / 65535\<close>. Samples are exact reals apart from the cast to uint16.
\<close>

theorem dtype_closure:
  assumes "cv2 (''COLOR_BayerBG2BGR'' @ suffix c) = Some bg" "debayer bg"
    and "cv2 (''COLOR_BayerGR2BGR'' @ suffix c) = Some gr" "debayer gr"
    and "is_plane dt h w img"
    and "dt \<in> {UInt8, UInt16} \<or> is_floating dt \<and> data img \<noteq> []"
  shows "\<exists>imgs. demosaicing cv2 img (Code c) = Inr imgs \<and> length imgs = 4 \<and>
           (\<forall>a \<in> set imgs. dtype a = dt) \<and>
           (is_floating dt \<longrightarrow>
              (\<exists>m u16. np_max (data img) = Inr m \<and> m = Max (set (data img)) \<and>
                 demosaicing cv2
                   \<lparr>dtype = UInt16, shape = shape img,
                    data = map (\<lambda>x. if m = 0 then 0
                                     else of_int \<lfloor>min (max (x * (65535 / m)) 0) 65535\<rfloor>)
                             (data img)\<rparr>
                   (Code c) = Inr u16 \<and>
                 imgs = map (\<lambda>a. \<lparr>dtype = dt, shape = shape a,
                                    data = map (\<lambda>v. if m = 0 then 0 else v / (65535 / m))
                                             (data a)\<rparr>) u16 \<and>
                 (\<forall>a \<in> set imgs. \<forall>v \<in> set (data a). min 0 m \<le> v \<and> v \<le> max 0 m) \<and>
                 (0 < m \<longrightarrow>
                    (\<forall>x \<in> set (data img). 0 \<le> x \<longrightarrow>
                       x - m / 65535
                         < of_int \<lfloor>min (max (x * (65535 / m)) 0) 65535\<rfloor> / (65535 / m) \<and>
                       of_int \<lfloor>min (max (x * (65535 / m)) 0) 65535\<rfloor> / (65535 / m) \<le> x))))"
proof (cases "is_floating dt")
  case False
  with assms(6) have "dt \<in> {UInt8, UInt16}" by blast
  from demosaicing_integer_images [OF assms(1-5) this] False show ?thesis
    by (auto simp: list_all_iff)
next
  case True
  with assms(6) obtain x xs where xs: "data img = x # xs"
    by (cases "data img") auto
  define m where "m = fold max xs x"
  have mx: "np_max (data img) = Inr m" "m = Max (set (data img))"
    by (simp_all add: xs m_def fold_max_eq)
  have "is_plane UInt16 h w (to_u16 m img)" using assms(5) by (rule to_u16_is_plane)
  from demosaicing_integer_images [OF assms(1-4) this]
  obtain u16 where u: "demosaicing cv2 (to_u16 m img) (Code c) = Inr u16" "length u16 = 4"
    and all: "list_all (\<lambda>a. valid_array a \<and> dtype a = UInt16 \<and>
                  shape a = (if is_color c then [h, w, 3] else [h, w])) u16"
    by auto
  from u(2) have "hd u16 \<in> set u16" by (cases u16) auto
  with all have same: "list_all (\<lambda>a. shape a = shape (hd u16)) u16"
    by (auto simp: list_all_iff)
  from assms(5) True have fl: "is_floating (dtype img)" and dt: "dtype img = dt"
    by (auto simp: is_plane_def)
  have r: "demosaicing cv2 img (Code c) = Inr (map (from_u16 m dt) u16)"
    by (simp add: demosaicing_floating [OF fl] mx(1) u(1) same dt)
  have rng: "\<forall>a \<in> set (map (from_u16 m dt) u16). \<forall>v \<in> set (data a).
               min 0 m \<le> v \<and> v \<le> max 0 m"
    using all from_u16_data_range_all [of _ m dt] by (auto simp: list_all_iff)
  have dts: "\<forall>a \<in> set (map (from_u16 m dt) u16). dtype a = dt"
    by (simp add: from_u16_fields)
  have err: "\<forall>x \<in> set (data img). 0 \<le> x \<longrightarrow>
               x - m / 65535
                 < of_int \<lfloor>min (max (x * (65535 / m)) 0) 65535\<rfloor> / (65535 / m) \<and>
               of_int \<lfloor>min (max (x * (65535 / m)) 0) 65535\<rfloor> / (65535 / m) \<le> x"
    if "0 < m"
  proof (intro ballI impI)
    fix y assume y: "y \<in> set (data img)" "0 \<le> y"
    then have "y \<le> m" unfolding mx(2) by simp
    with that y(2) show "y - m / 65535
                 < of_int \<lfloor>min (max (y * (65535 / m)) 0) 65535\<rfloor> / (65535 / m) \<and>
               of_int \<lfloor>min (max (y * (65535 / m)) 0) 65535\<rfloor> / (65535 / m) \<le> y"
      by (rule rescale_error)
  qed
  let ?F = "\<lambda>a. \<lparr>dtype = dt, shape = shape a,
                   data = map (\<lambda>v. if m = 0 then 0 else v / (65535 / m)) (data a)\<rparr>"
  have fe: "from_u16 m dt = ?F"
    by (rule ext) (rule from_u16_explicit)
  note r' = r [unfolded fe] and u' = u(1) [unfolded to_u16_explicit]
    and rng' = rng [unfolded fe] and dts' = dts [unfolded fe]
  have len: "length (map ?F u16) = 4" using u(2) by simp
  from err have err': "0 < m \<longrightarrow> (\<forall>x \<in> set (data img). 0 \<le> x \<longrightarrow>
               x - m / 65535
                 < of_int \<lfloor>min (max (x * (65535 / m)) 0) 65535\<rfloor> / (65535 / m) \<and>
               of_int \<lfloor>min (max (x * (65535 / m)) 0) 65535\<rfloor> / (65535 / m) \<le> x)"
    by blast
  have eq: "map ?F u16 = map ?F u16" by (rule refl)
  show ?thesis
    apply (rule exI [of _ "map ?F u16"])
    apply (intro conjI impI)
       apply (rule r')
      apply (rule len)
     apply (rule dts')
    apply (rule exI [of _ m])
    apply (rule exI [of _ u16])
    apply (intro conjI)
         apply (rule mx(1))
        apply (rule mx(2))
       apply (rule u')
      apply (rule eq)
     apply (rule rng')
    apply (rule err')
    done
qed

theorem dtype_closure_witness:
  "toy_cv2 (''COLOR_BayerBG2BGR'' @ suffix COLOR_PolarMono) = Some toy_bg \<and> debayer toy_bg \<and>
   toy_cv2 (''COLOR_BayerGR2BGR'' @ suffix COLOR_PolarMono) = Some toy_gr \<and> debayer toy_gr \<and>
   is_plane Float32 2 2 \<lparr>dtype = Float32, shape = [2, 2], data = [1 / 2, 1, 1 / 4, 0]\<rparr> \<and>
   (Float32 \<in> {UInt8, UInt16} \<or>
    is_floating Float32 \<and>
    data \<lparr>dtype = Float32, shape = [2, 2], data = [1 / 2, 1, 1 / 4, 0]\<rparr> \<noteq> []) \<and>
   demosaicing toy_cv2 \<lparr>dtype = Float32, shape = [2, 2], data = [1 / 2, 1, 1 / 4, 0]\<rparr>
     (Code COLOR_PolarMono) =
   Inr [\<lparr>dtype = Float32, shape = [2, 2], data = [32767 / 65535, 1, 16383 / 65535, 0]\<rparr>,
        \<lparr>dtype = Float32, shape = [2, 2], data = [0, 0, 0, 0]\<rparr>,
        \<lparr>dtype = Float32, shape = [2, 2], data = [0, 0, 0, 0]\<rparr>,
        \<lparr>dtype = Float32, shape = [2, 2], data = [32767 / 65535, 1, 16383 / 65535, 0]\<rparr>]"
proof -
  let ?img = "\<lparr>dtype = Float32, shape = [2, 2], data = [1 / 2, 1, 1 / 4, 0]\<rparr>"
  have p: "is_plane Float32 2 2 ?img"
    by (simp add: is_plane_def valid_array_def wf_array_def)
  have d: "Float32 \<in> {UInt8, UInt16} \<or> is_floating Float32 \<and> data ?img \<noteq> []"
    by simp
  from dtype_closure [OF toy_cv2_bg toy_bg_debayer toy_cv2_gr toy_gr_debayer p d]
  obtain imgs m u16 where
    r: "demosaicing toy_cv2 ?img (Code COLOR_PolarMono) = Inr imgs"
    and m: "m = Max (set (data ?img))"
    and u: "demosaicing toy_cv2
              \<lparr>dtype = UInt16, shape = shape ?img,
                 data = map (\<lambda>x. if m = 0 then 0
                                  else of_int \<lfloor>min (max (x * (65535 / m)) 0) 65535\<rfloor>)
                          (data ?img)\<rparr>
              (Code COLOR_PolarMono) = Inr u16"
    and i: "imgs = map (\<lambda>a. \<lparr>dtype = Float32, shape = shape a,
                                 data = map (\<lambda>v. if m = 0 then 0 else v / (65535 / m))
                                          (data a)\<rparr>) u16"
    by auto
  from m have m1: "m = 1" by simp
  from u have "demosaicing toy_cv2
                 \<lparr>dtype = UInt16, shape = [2, 2], data = [32767, 65535, 16383, 0]\<rparr>
                 (Code COLOR_PolarMono) = Inr u16"
    unfolding m1 by simp
  with toy_mono_run have "u16 =
     [\<lparr>dtype = UInt16, shape = [2, 2], data = [32767, 65535, 16383, 0]\<rparr>,
      \<lparr>dtype = UInt16, shape = [2, 2], data = [0, 0, 0, 0]\<rparr>,
      \<lparr>dtype = UInt16, shape = [2, 2], data = [0, 0, 0, 0]\<rparr>,
      \<lparr>dtype = UInt16, shape = [2, 2], data = [32767, 65535, 16383, 0]\<rparr>]"
    by simp
  with i m1 have "imgs =
     [\<lparr>dtype = Float32, shape = [2, 2], data = [32767 / 65535, 1, 16383 / 65535, 0]\<rparr>,
      \<lparr>dtype = Float32, shape = [2, 2], data = [0, 0, 0, 0]\<rparr>,
      \<lparr>dtype = Float32, shape = [2, 2], data = [0, 0, 0, 0]\<rparr>,
      \<lparr>dtype = Float32, shape = [2, 2], data = [32767 / 65535, 1, 16383 / 65535, 0]\<rparr>]"
    by simp
  with r toy_cv2_bg toy_bg_debayer toy_cv2_gr toy_gr_debayer p d show ?thesis by blast
qed

section \<open>Claims about the Stokes fit\<close>

text \<open>
  C2 (general fit). Let \<open>M\<close> be a stack of matrices with at least one row each, \<open>A\<close>
  the matrix of their first rows, \<open>I\<close> an intensity stack with one sample per matrix
  at every pixel, and let \<open>pinv\<close> return the Moore-Penrose pseudo-inverse of \<open>A\<close>.
  Then calcStokes returns one vector per pixel: the pseudo-inverse of \<open>A\<close>, which
  depends on \<open>M\<close> only and is the same for all pixels, applied to the intensities of
  that pixel. The vector minimises the squared residual of \<open>I = A S\<close> at the pixel
  over all \<open>S\<close>, and among the minimisers it has the smallest norm: the least-squares
  solution of an over-determined system and the minimum-norm one of an under-determined
  system. The result is a closed expression of \<open>pinv A\<close> and \<open>I\<close>, without a loop.
\<close>

theorem calcStokes_least_squares:
  assumes "list_all (\<lambda>m. m \<noteq> []) M"
    and "moore_penrose n k (map hd M) (pinv (map hd M))"
    and "list_all (\<lambda>p. length p = n) I"
  shows "\<exists>S. calcStokes pinv I M = Inr S \<and> length S = length I \<and>
           (\<forall>i < length I.
              S ! i = mv (pinv (map hd M)) (I ! i) \<and>
              (\<forall>s'. length s' = k \<longrightarrow>
                 norm2 (vsub (mv (map hd M) (S ! i)) (I ! i))
                   \<le> norm2 (vsub (mv (map hd M) s') (I ! i))) \<and>
              (\<forall>s'. length s' = k \<and>
                 norm2 (vsub (mv (map hd M) s') (I ! i))
                   = norm2 (vsub (mv (map hd M) (S ! i)) (I ! i)) \<longrightarrow>
                 norm2 (S ! i) \<le> norm2 s'))"
proof -
  from assms(2) have P: "is_matrix k n (pinv (map hd M))" by (simp add: moore_penrose_def)
  have len: "length (I ! i) = n" if "i < length I" for i
    using assms(3) that by (simp add: list_all_iff)
  show ?thesis
    unfolding calcStokes_eq [where pinv = pinv and M = M, OF assms(1) P assms(3)]
    using least_squares [OF assms(2) len] minimum_norm [OF assms(2) len]
    by simp
qed

theorem calcStokes_least_squares_witness:
  "list_all (\<lambda>m. m \<noteq> []) [[[1, 1, 0]], [[1, 0, 1]], [[1, - 1, 0]], [[1, 0, - 1 :: real]]] \<and>
   moore_penrose 4 3 (map hd [[[1, 1, 0]], [[1, 0, 1]], [[1, - 1, 0]], [[1, 0, - 1]]])
     (pinv4 1 (map hd [[[1, 1, 0]], [[1, 0, 1]], [[1, - 1, 0]], [[1, 0, - 1]]])) \<and>
   list_all (\<lambda>p. length p = 4) [[1, 1, 1, 1], [2, 1, 0, 2 :: real]] \<and>
   (\<exists>S. calcStokes (pinv4 1) [[1, 1, 1, 1], [2, 1, 0, 2]]
          [[[1, 1, 0]], [[1, 0, 1]], [[1, - 1, 0]], [[1, 0, - 1]]] = Inr S \<and>
        S ! 0 = [1, 0, 0] \<and> S ! 1 = [5 / 4, 1, - 1 / 2] \<and>
        (\<forall>s'. length s' = 3 \<longrightarrow>
           norm2 (vsub (mv [[1, 1, 0], [1, 0, 1], [1, - 1, 0], [1, 0, - 1]] (S ! 1)) [2, 1, 0, 2])
             \<le> norm2 (vsub (mv [[1, 1, 0], [1, 0, 1], [1, - 1, 0], [1, 0, - 1]] s') [2, 1, 0, 2])))"
proof -
  let ?M = "[[[1, 1, 0]], [[1, 0, 1]], [[1, - 1, 0]], [[1, 0, - 1 :: real]]]"
  let ?I = "[[1, 1, 1, 1], [2, 1, 0, 2 :: real]]"
  have ne: "list_all (\<lambda>m. m \<noteq> []) ?M" by simp
  have hd: "map hd ?M = malus_rows 1 four_angles" by (simp add: four_angle_rows)
  have mp: "moore_penrose 4 3 (map hd ?M) (pinv4 1 (map hd ?M))"
    unfolding hd by (rule pinv4_moore_penrose) simp
  have len: "list_all (\<lambda>p. length p = 4) ?I" by simp
  from calcStokes_least_squares [where pinv = "pinv4 1" and M = ?M, OF ne mp len]
  obtain S where
    S: "calcStokes (pinv4 1) ?I ?M = Inr S"
    and a: "\<forall>i < length ?I.
              S ! i = mv (pinv4 1 (map hd ?M)) (?I ! i) \<and>
              (\<forall>s'. length s' = 3 \<longrightarrow>
                 norm2 (vsub (mv (map hd ?M) (S ! i)) (?I ! i))
                   \<le> norm2 (vsub (mv (map hd ?M) s') (?I ! i)))"
    by blast
  from a have "S ! 0 = mv (pinv4 1 (map hd ?M)) (?I ! 0)" by simp
  then have s0: "S ! 0 = [1, 0, 0]" by (simp add: pinv4_def mv_def dot_def)
  from a have "S ! 1 = mv (pinv4 1 (map hd ?M)) (?I ! 1)" by simp
  then have s1: "S ! 1 = [5 / 4, 1, - 1 / 2]" by (simp add: pinv4_def mv_def dot_def)
  have i1: "(1::nat) < length ?I" by simp
  have hdM: "map hd ?M = [[1, 1, 0], [1, 0, 1], [1, - 1, 0], [1, 0, - 1]]" by simp
  have I1: "?I ! 1 = [2, 1, 0, 2]" by simp
  from a i1 have "\<forall>s'. length s' = 3 \<longrightarrow>
                 norm2 (vsub (mv (map hd ?M) (S ! 1)) (?I ! 1))
                   \<le> norm2 (vsub (mv (map hd ?M) s') (?I ! 1))"
    by blast
  then have ls: "\<forall>s'. length s' = 3 \<longrightarrow>
           norm2 (vsub (mv [[1, 1, 0], [1, 0, 1], [1, - 1, 0], [1, 0, - 1]] (S ! 1)) [2, 1, 0, 2])
             \<le> norm2 (vsub (mv [[1, 1, 0], [1, 0, 1], [1, - 1, 0], [1, 0, - 1]] s') [2, 1, 0, 2])"
    unfolding hdM I1 .
  from ne mp len S s0 s1 ls show ?thesis by blast
qed

text \<open>
  C4 (linear fit), as amended. The polariser row is \<open>[1, cos 2\<theta>, sin 2\<theta>]\<close> times a
  scaling \<open>g\<close>. For intensities generated as
  \<open>S0 + S1 cos 2\<theta> + S2 sin 2\<theta>\<close> at the four angles 0, 45, 90 and 135 degrees,
  calcLinearStokes returns \<open>(S0, S1, S2) / g\<close> at every pixel: the components are
  recovered up to the scaling of the row, and exactly when the scaling is 1.
\<close>

theorem linear_fit_scaled:
  assumes "g \<noteq> 0"
    and "moore_penrose 4 3 (malus_rows g four_angles) (pinv (malus_rows g four_angles))"
  shows "calcLinearStokes pinv g (map (synthetic four_angles) Ss) four_angles =
           Inr (map (\<lambda>(S0, S1, S2). [S0 / g, S1 / g, S2 / g]) Ss)"
  using assms by (rule linear_fit)

theorem linear_fit_scaled_witness:
  "(1::real) \<noteq> 0 \<and>
   moore_penrose 4 3 (malus_rows 1 four_angles) (pinv4 1 (malus_rows 1 four_angles)) \<and>
   calcLinearStokes (pinv4 1) 1 (map (synthetic four_angles) [(3, 1, - 2), (1, 0, 0)])
     four_angles = Inr [[3, 1, - 2], [1, 0, 0]]"
proof -
  have g: "(1::real) \<noteq> 0" by simp
  have mp: "moore_penrose 4 3 (malus_rows 1 four_angles) (pinv4 1 (malus_rows 1 four_angles))"
    using g by (rule pinv4_moore_penrose)
  from linear_fit_scaled
    [where pinv = "pinv4 1" and g = 1 and Ss = "[(3, 1, - 2), (1, 0, 0)]", OF g mp] g mp
  show ?thesis
    by simp
qed

text \<open>
  With the scaling one half the claim as stated fails: the intensities of
  \<open>(1, 0, 0)\<close> are fitted by \<open>(2, 0, 0)\<close>.
\<close>

theorem linear_fit_counterexample:
  "moore_penrose 4 3 (malus_rows (1 / 2) four_angles)
     (pinv4 (1 / 2) (malus_rows (1 / 2) four_angles)) \<and>
   calcLinearStokes (pinv4 (1 / 2)) (1 / 2) (map (synthetic four_angles) [(1, 0, 0)])
     four_angles = Inr [[2, 0, 0]] \<and>
   calcLinearStokes (pinv4 (1 / 2)) (1 / 2) (map (synthetic four_angles) [(1, 0, 0)])
     four_angles \<noteq> Inr [[1, 0, 0]]"
proof -
  have g: "(1 / 2 :: real) \<noteq> 0" by simp
  have mp: "moore_penrose 4 3 (malus_rows (1 / 2) four_angles)
              (pinv4 (1 / 2) (malus_rows (1 / 2) four_angles))"
    using g by (rule pinv4_moore_penrose)
  from linear_fit [where pinv = "pinv4 (1 / 2)" and g = "1 / 2" and Ss = "[(1, 0, 0)]", OF g mp] mp
  show ?thesis
    by simp
qed

section \<open>Claims about the kernels\<close>

text \<open>
  C5 (kernel symmetry). For a Stokes-vector image with the three linear components, the
  four kernels return one value per pixel, and at every pixel the difference of Imax and
  Imin is Specular and Intensity is the mean of Imax and Imin. The identities are exact
  over the reals, which stand for the floating-point samples.
\<close>

theorem kernel_symmetry:
  assumes "stokes3 img"
  shows "\<exists>Imax Imin Specular Intensity.
           cvtStokesToImax img = Inr Imax \<and> cvtStokesToImin img = Inr Imin \<and>
           cvtStokesToSpecular img = Inr Specular \<and>
           cvtStokesToIntensity img = Inr Intensity \<and>
           length Imax = length img \<and> length Imin = length img \<and>
           length Specular = length img \<and> length Intensity = length img \<and>
           (\<forall>i < length img.
              Imax ! i - Imin ! i = Specular ! i \<and>
              Intensity ! i = (Imax ! i + Imin ! i) / 2)"
  using assms
  by (simp add: Imax_eq Imin_eq Specular_eq Intensity_eq algebra_simps)

theorem kernel_symmetry_witness:
  "stokes3 [[4, 3, 0], [2, 0, -1]] \<and>
   (\<exists>Imax Imin Specular Intensity.
      cvtStokesToImax [[4, 3, 0], [2, 0, -1]] = Inr Imax \<and>
      cvtStokesToImin [[4, 3, 0], [2, 0, -1]] = Inr Imin \<and>
      cvtStokesToSpecular [[4, 3, 0], [2, 0, -1]] = Inr Specular \<and>
      cvtStokesToIntensity [[4, 3, 0], [2, 0, -1]] = Inr Intensity \<and>
      Imax ! 0 - Imin ! 0 = Specular ! 0 \<and> Intensity ! 1 = (Imax ! 1 + Imin ! 1) / 2)"
proof -
  have h: "stokes3 [[4, 3, 0], [2, 0, -1]]" by (simp add: stokes3_def)
  from kernel_symmetry [OF h] obtain Imax Imin Specular Intensity where
    r: "cvtStokesToImax [[4, 3, 0], [2, 0, -1]] = Inr Imax"
       "cvtStokesToImin [[4, 3, 0], [2, 0, -1]] = Inr Imin"
       "cvtStokesToSpecular [[4, 3, 0], [2, 0, -1]] = Inr Specular"
       "cvtStokesToIntensity [[4, 3, 0], [2, 0, -1]] = Inr Intensity"
    and p: "\<forall>i < length [[4, 3, 0], [2, 0, -1 :: real]].
              Imax ! i - Imin ! i = Specular ! i \<and>
              Intensity ! i = (Imax ! i + Imin ! i) / 2"
    by blast
  from p have "Imax ! 0 - Imin ! 0 = Specular ! 0" by simp
  moreover from p have "Intensity ! 1 = (Imax ! 1 + Imin ! 1) / 2" by simp
  ultimately show ?thesis using h r by blast
qed

text \<open>
  C10 (kernel ordering). For a real-valued Stokes-vector image, at every pixel
  Imin \<open>\<le>\<close> Intensity \<open>\<le>\<close> Imax and Specular is not negative, whatever the sign of S0.
\<close>

theorem kernel_ordering:
  assumes "stokes3 img"
  shows "\<exists>Imax Imin Specular Intensity.
           cvtStokesToImax img = Inr Imax \<and> cvtStokesToImin img = Inr Imin \<and>
           cvtStokesToSpecular img = Inr Specular \<and>
           cvtStokesToIntensity img = Inr Intensity \<and>
           length Imax = length img \<and> length Imin = length img \<and>
           length Specular = length img \<and> length Intensity = length img \<and>
           (\<forall>i < length img.
              Imin ! i \<le> Intensity ! i \<and> Intensity ! i \<le> Imax ! i \<and> 0 \<le> Specular ! i)"
  using assms
  by (simp add: Imax_eq Imin_eq Specular_eq Intensity_eq polarized_nonneg)

theorem kernel_ordering_witness:
  "stokes3 [[-2, 1, 0], [0, 0, 0]] \<and>
   (\<exists>Imax Imin Specular Intensity.
      cvtStokesToImax [[-2, 1, 0], [0, 0, 0]] = Inr Imax \<and>
      cvtStokesToImin [[-2, 1, 0], [0, 0, 0]] = Inr Imin \<and>
      cvtStokesToSpecular [[-2, 1, 0], [0, 0, 0]] = Inr Specular \<and>
      cvtStokesToIntensity [[-2, 1, 0], [0, 0, 0]] = Inr Intensity \<and>
      Imin ! 0 \<le> Intensity ! 0 \<and> Intensity ! 0 \<le> Imax ! 0 \<and> 0 \<le> Specular ! 1)"
proof -
  have h: "stokes3 [[-2, 1, 0], [0, 0, 0]]" by (simp add: stokes3_def)
  from kernel_ordering [OF h] obtain Imax Imin Specular Intensity where
    r: "cvtStokesToImax [[-2, 1, 0], [0, 0, 0]] = Inr Imax"
       "cvtStokesToImin [[-2, 1, 0], [0, 0, 0]] = Inr Imin"
       "cvtStokesToSpecular [[-2, 1, 0], [0, 0, 0]] = Inr Specular"
       "cvtStokesToIntensity [[-2, 1, 0], [0, 0, 0]] = Inr Intensity"
    and p: "\<forall>i < length [[-2, 1, 0], [0, 0, 0 :: real]].
              Imin ! i \<le> Intensity ! i \<and> Intensity ! i \<le> Imax ! i \<and> 0 \<le> Specular ! i"
    by blast
  from p have "Imin ! 0 \<le> Intensity ! 0 \<and> Intensity ! 0 \<le> Imax ! 0" by simp
  moreover from p have "0 \<le> Specular ! 1" by simp
  ultimately show ?thesis using h r by blast
qed

text \<open>
  C8 (AoLP range), as amended. For a Stokes-vector image, every pixel of cvtStokesToAoLP
  is the double-precision remainder \<open>mod(0.5 \<sqdot> atan2(S2, S1), \<pi>)\<close>, with \<open>\<pi>\<close> the
  program's constant \<^verbatim>\<open>np.pi\<close>, and lies in the closed range from 0 to \<open>\<pi>\<close>. The
  arctangent and the halving are exact here; the bounds hold for every half-angle,
  whatever its rounding.
\<close>

theorem AoLP_range:
  assumes "stokes3 img"
  shows "\<exists>AoLP. cvtStokesToAoLP img = Inr AoLP \<and> length AoLP = length img \<and>
           (\<forall>i < length img.
              AoLP ! i = np_mod (0.5 * arctan2 (img ! i ! 2) (img ! i ! 1)) np_pi \<and>
              0 \<le> AoLP ! i \<and> AoLP ! i \<le> np_pi)"
  using assms by (simp add: AoLP_eq np_mod_range)

theorem AoLP_range_witness:
  "stokes3 [[1, - 1, 0], [1, 0, - 1]] \<and>
   (\<exists>AoLP. cvtStokesToAoLP [[1, - 1, 0], [1, 0, - 1]] = Inr AoLP \<and>
      0 \<le> AoLP ! 0 \<and> AoLP ! 0 \<le> np_pi \<and> 0 \<le> AoLP ! 1 \<and> AoLP ! 1 \<le> np_pi)"
proof -
  have h: "stokes3 [[1, - 1, 0], [1, 0, - 1]]" by (simp add: stokes3_def)
  from AoLP_range [OF h] obtain AoLP where
    r: "cvtStokesToAoLP [[1, - 1, 0], [1, 0, - 1]] = Inr AoLP"
    and p: "\<forall>i < length [[1, - 1, 0], [1, 0, - 1 :: real]]. 0 \<le> AoLP ! i \<and> AoLP ! i \<le> np_pi"
    by blast
  from p have "0 \<le> AoLP ! 0 \<and> AoLP ! 0 \<le> np_pi" by simp
  moreover from p have "0 \<le> AoLP ! 1 \<and> AoLP ! 1 \<le> np_pi" by simp
  ultimately show ?thesis using h r by blast
qed

text \<open>
  The claim as stated, with the range open at \<open>\<pi>\<close>, fails: at the pixel
  \<open>S1 = 1, S2 = -10\<^sup>-\<^sup>2\<^sup>0\<close> the half-angle is negative and so small that its sum with
  \<open>\<pi>\<close> rounds to \<open>\<pi>\<close>, and the kernel returns \<open>\<pi>\<close> itself.
\<close>

theorem AoLP_range_counterexample:
  "cvtStokesToAoLP [[1, 1, - (1 / 10 ^ 20)]] = Inr [np_pi]"
proof -
  have h: "stokes3 [[1, 1, - (1 / 10 ^ 20)]]" by (simp add: stokes3_def)
  have a: "arctan2 (- (1 / 10 ^ 20)) 1 = - arctan (1 / 10 ^ 20)"
    by (simp add: arctan2_def arctan_minus)
  have lo: "- (1 / 10 ^ 17) < 0.5 * - arctan (1 / 10 ^ 20)"
    and hi: "0.5 * - arctan (1 / 10 ^ 20) < 0"
    using arctan_small by simp_all
  have k: "np_mod (0.5 * arctan2 (- (1 / 10 ^ 20)) 1) np_pi = np_pi"
    unfolding a using lo hi by (rule np_mod_tiny)
  have e: "cvtStokesToAoLP [[1, 1, - (1 / 10 ^ 20)]] =
             Inr [np_mod (0.5 * arctan2 (- (1 / 10 ^ 20)) 1) np_pi]"
    unfolding AoLP_eq [OF h] by simp
  show ?thesis unfolding e k by (rule refl)
qed

text \<open>
  C9 (degenerate DoLP). cvtStokesToDoLP does not fail on a Stokes-vector image: it
  returns one value per pixel, the value of a pixel with \<open>S0 = 0\<close> is not finite, and the
  value of an all-zero pixel is NaN.
\<close>

theorem DoLP_degenerate:
  assumes "stokes3 img"
  shows "\<exists>DoLP. cvtStokesToDoLP img = Inr DoLP \<and> length DoLP = length img \<and>
           (\<forall>i < length img. img ! i ! 0 = 0 \<longrightarrow> \<not> is_finite (DoLP ! i)) \<and>
           (\<forall>i < length img. img ! i ! 0 = 0 \<and> img ! i ! 1 = 0 \<and> img ! i ! 2 = 0
                \<longrightarrow> DoLP ! i = NaN)"
  using assms by (auto simp: DoLP_eq true_divide_def polarized_def)

theorem DoLP_degenerate_witness:
  "stokes3 [[0, 0, 0], [0, 3, 4], [2, 0, 1]] \<and>
   cvtStokesToDoLP [[0, 0, 0], [0, 3, 4], [2, 0, 1]] = Inr [NaN, PosInf, Finite (1 / 2)] \<and>
   \<not> is_finite ([NaN, PosInf, Finite (1 / 2)] ! 0) \<and>
   \<not> is_finite ([NaN, PosInf, Finite (1 / 2)] ! 1)"
proof -
  have h: "stokes3 [[0, 0, 0], [0, 3, 4], [2, 0, 1]]" by (simp add: stokes3_def)
  have e: "cvtStokesToDoLP [[0, 0, 0], [0, 3, 4], [2, 0, 1]] = Inr [NaN, PosInf, Finite (1 / 2)]"
    by (simp add: DoLP_eq [OF h] true_divide_def polarized_def)
  from DoLP_degenerate [OF h] e
  have "\<forall>i < 3. [[0, 0, 0], [0, 3, 4], [2, 0, 1 :: real]] ! i ! 0 = 0
          \<longrightarrow> \<not> is_finite ([NaN, PosInf, Finite (1 / 2)] ! i)"
    by simp
  then have "\<not> is_finite ([NaN, PosInf, Finite (1 / 2)] ! 0)"
    and "\<not> is_finite ([NaN, PosInf, Finite (1 / 2)] ! 1)"
    by simp_all
  with h e show ?thesis by blast
qed

end
